theory Spec2Isabelle
  imports Main
begin

section \<open>JavaScript strings and the fragment of RegExp the router uses\<close>

text \<open>
  Strings are \<^typ>\<open>string\<close>, read as UTF-8: a character outside ASCII is a sequence of
  bytes above 127. The characters that matter to the router (the colon, the slash, the
  word characters and the special characters of regular expressions) are ASCII.
\<close>

definition is_ascii :: "char \<Rightarrow> bool" where
  "is_ascii c = ((of_char c :: nat) < 128)"

definition upper_char :: "char \<Rightarrow> char" where
  "upper_char c =
     (case map_of (zip ''abcdefghijklmnopqrstuvwxyz'' ''ABCDEFGHIJKLMNOPQRSTUVWXYZ'') c of
        Some u \<Rightarrow> u
      | None \<Rightarrow> c)"

text \<open>
  What JavaScript's \<open>toUpperCase\<close> returns for a string with characters outside ASCII
  depends on the case tables of Unicode, which are no part of this model: the model fixes
  no result for such a string.
\<close>

definition unicode_toUpperCase :: "string \<Rightarrow> string" where
  "unicode_toUpperCase s = undefined s"

text \<open>
  \<open>s.toUpperCase()\<close>. In ASCII text the letters \<open>a\<close>..\<open>z\<close> become \<open>A\<close>..\<open>Z\<close>
  and nothing else changes. For other text the result is the one of the Unicode tables;
  all that the model says about it is that no letter \<open>a\<close>..\<open>z\<close> is left in it (the
  outer \<open>map\<close> changes nothing else).
\<close>

definition toUpperCase :: "string \<Rightarrow> string" where
  "toUpperCase s = map upper_char (if list_all is_ascii s then s else unicode_toUpperCase s)"

text \<open>
  A value of type \<open>string | undefined\<close> is a \<^typ>\<open>string option\<close>; it is truthy
  when it is defined and not the empty string.
\<close>

fun truthy :: "string option \<Rightarrow> bool" where
  "truthy None = False"
| "truthy (Some s) = (s \<noteq> [])"

text \<open>The character class \<open>\w\<close> (and \<open>[\w\d]\<close>, which is the same class).\<close>

definition is_word :: "char \<Rightarrow> bool" where
  "is_word c =
     (let n = (of_char c :: nat) in
        (48 \<le> n \<and> n \<le> 57) \<or> (65 \<le> n \<and> n \<le> 90) \<or> n = 95 \<or> (97 \<le> n \<and> n \<le> 122))"

text \<open>The characters of the class \<open>[.*+?^${}()|[\]\\]\<close> in \<open>escapeRegExp\<close>.\<close>

definition is_special :: "char \<Rightarrow> bool" where
  "is_special c = (c \<in> set (''.*+?^${}()|[]'' @ [CHR 0x5C]))"

text \<open>
  \<open>s.replace(/[.*+?^${}()|[\]\\]/g, '\\$&')\<close>: every special character gets a
  backslash in front of it.
\<close>

fun escapeRegExp :: "string \<Rightarrow> string" where
  "escapeRegExp [] = []"
| "escapeRegExp (c # cs) =
     (if is_special c then CHR 0x5C # c # escapeRegExp cs else c # escapeRegExp cs)"

text \<open>
  \<open>pattern.split(/:(\w[\w\d]*)/)\<close>: the string is scanned from the left for a colon
  followed by a word character; the text before it is one element of the result, the
  captured name (the longest run of word characters) is the next, and the scan goes on
  behind the name. The text after the last placeholder is the last element, so the
  result has an odd number of elements: literal, name, literal, ..., literal. The first
  argument is the literal text read so far.
\<close>

function split_params :: "string \<Rightarrow> string \<Rightarrow> string list" where
  "split_params lit [] = [lit]"
| "split_params lit (c # cs) =
     (if c = CHR '':'' \<and> cs \<noteq> [] \<and> is_word (hd cs)
      then lit # takeWhile is_word cs # split_params [] (dropWhile is_word cs)
      else split_params (lit @ [c]) cs)"
  by pat_completeness auto
termination
  by (relation "measure (\<lambda>(lit, s). length s)")
     (auto simp: length_dropWhile_le less_Suc_eq_le)

text \<open>
  The regular expressions the constructor can build: a sequence of literal characters,
  capture groups \<open>([^/]*)\<close> and the two anchors. \<open>RegExp_new\<close> reads a source text
  of this fragment; \<open>None\<close> says that the source is outside the fragment.
\<close>

datatype rx = RBegin | REnd | RChar char | RGroup

function RegExp_new :: "string \<Rightarrow> rx list option" where
  "RegExp_new [] = Some []"
| "RegExp_new (c # cs) =
     (if c = CHR 0x5C then
        (case cs of
           [] \<Rightarrow> None
         | d # ds \<Rightarrow> if is_special d then map_option ((#) (RChar d)) (RegExp_new ds) else None)
      else if c = CHR ''^'' then map_option ((#) RBegin) (RegExp_new cs)
      else if c = CHR ''$'' then map_option ((#) REnd) (RegExp_new cs)
      else if take 6 cs = ''[^/]*)'' \<and> c = CHR ''('' then
        map_option ((#) RGroup) (RegExp_new (drop 6 cs))
      else if is_special c then None
      else map_option ((#) (RChar c)) (RegExp_new cs))"
  by pat_completeness auto
termination
  by (relation "measure length") auto

text \<open>
  Backtracking matching at one position. The flag says whether the position is the start
  of the input. A group is greedy: it first takes every character up to the next slash
  and gives characters back one at a time while the rest of the expression fails. The
  result is the list of the captured texts, in the order of the groups.
\<close>

fun rx_match :: "rx list \<Rightarrow> bool \<Rightarrow> string \<Rightarrow> string list option"
  and rx_group :: "rx list \<Rightarrow> bool \<Rightarrow> string \<Rightarrow> nat \<Rightarrow> string list option" where
  "rx_match [] st s = Some []"
| "rx_match (RBegin # r) st s = (if st then rx_match r st s else None)"
| "rx_match (REnd # r) st s = (if s = [] then rx_match r st s else None)"
| "rx_match (RChar c # r) st s =
     (case s of [] \<Rightarrow> None | d # s' \<Rightarrow> if c = d then rx_match r False s' else None)"
| "rx_match (RGroup # r) st s =
     rx_group r st s (length (takeWhile (\<lambda>c. c \<noteq> CHR ''/'') s))"
| "rx_group r st s k =
     (case rx_match r (st \<and> k = 0) (drop k s) of
        Some gs \<Rightarrow> Some (take k s # gs)
      | None \<Rightarrow> (case k of 0 \<Rightarrow> None | Suc k' \<Rightarrow> rx_group r st s k'))"

text \<open>
  \<open>regex.exec(s)\<close> of a regular expression without flags: the match is tried at
  position 0, then 1, and so on up to the end of the input; the first position that
  matches decides. The result stands for \<open>match[1]\<close>, \<open>match[2]\<close>, ...
\<close>

fun rx_exec_from :: "rx list \<Rightarrow> bool \<Rightarrow> string \<Rightarrow> string list option" where
  "rx_exec_from r st [] = rx_match r st []"
| "rx_exec_from r st (c # cs) =
     (case rx_match r st (c # cs) of
        Some gs \<Rightarrow> Some gs
      | None \<Rightarrow> rx_exec_from r False cs)"

definition rx_exec :: "rx list \<Rightarrow> string \<Rightarrow> string list option" where
  "rx_exec r s = rx_exec_from r True s"

section \<open>The path router\<close>

text \<open>
  The parts of \<open>http.IncomingMessage\<close> the program reads: the method and the URL,
  both of type \<open>string | undefined\<close>, and the body that a form submission carries.
\<close>

record request =
  req_method :: "string option"
  req_url :: "string option"
  req_body :: string

text \<open>
  What a handler can do to \<open>http.ServerResponse\<close>: set \<open>statusCode\<close> and call
  \<open>end\<close> with the body.
\<close>

record response =
  statusCode :: nat
  body :: string
  finished :: bool

definition res_end :: "string \<Rightarrow> response \<Rightarrow> response" where
  "res_end chunk res = res\<lparr>body := body res @ chunk, finished := True\<rparr>"

type_synonym Params = "string \<rightharpoonup> string"

text \<open>
  Handlers are closures with side effects; \<open>'w\<close> is the program state they close over,
  which they may change next to the response.
\<close>

type_synonym 'w Handler = "request \<Rightarrow> response \<Rightarrow> 'w \<Rightarrow> response \<times> 'w"

type_synonym 'w RouteHandler = "request \<Rightarrow> response \<Rightarrow> Params \<Rightarrow> 'w \<Rightarrow> response \<times> 'w"

record 'w Route =
  "method" :: string
  pattern :: string
  paramNames :: "string list"
  regex :: "rx list"
  handler :: "'w RouteHandler"

text \<open>
  The loop of the constructor over the parts of the split template. The state is
  \<open>(paramNames, patternRegex, isParam)\<close>.
\<close>

fun compile_parts :: "string list \<Rightarrow> string list \<times> string \<times> bool \<Rightarrow> string list \<times> string \<times> bool" where
  "compile_parts [] acc = acc"
| "compile_parts (part # parts) (names, patternRegex, isParam) =
     (if isParam
      then compile_parts parts (names @ [part], patternRegex @ ''([^/]*)'', \<not> isParam)
      else compile_parts parts (names, patternRegex @ escapeRegExp part, \<not> isParam))"

text \<open>
  The source text of the regular expression the constructor compiles:
  \<open>'^' + patternRegex + '$'\<close>.
\<close>

definition regex_source :: "string \<Rightarrow> string" where
  "regex_source pat =
     ''^'' @ fst (snd (compile_parts (split_params [] pat) ([], [], False))) @ ''$''"

text \<open>
  \<open>new Route(method, pattern, handler)\<close>. The parameter property \<open>public method\<close>
  stores the method as it is given; the first statement stores the upper-cased template
  in the field \<open>pattern\<close>; the expression is compiled from the parameter \<open>pattern\<close>.
  The result is \<open>None\<close> when the source of the expression is outside the modelled
  fragment of RegExp.
\<close>

definition Route_new :: "string \<Rightarrow> string \<Rightarrow> 'w RouteHandler \<Rightarrow> 'w Route option" where
  "Route_new m pat h =
     (case RegExp_new (regex_source pat) of
        None \<Rightarrow> None
      | Some r \<Rightarrow>
          Some \<lparr>method = m,
                pattern = toUpperCase pat,
                paramNames = fst (compile_parts (split_params [] pat) ([], [], False)),
                regex = r,
                handler = h\<rparr>)"

text \<open>
  \<open>paramNames.forEach((name, i) => { params[name] = match[i + 1]; })\<close>, with the
  captured texts as \<open>match[1]\<close>, \<open>match[2]\<close>, ... The map holds the own properties of
  the object \<open>params\<close>, which starts as \<open>{}\<close>. An assignment to the key
  \<open>__proto__\<close> of such an object calls the setter that it inherits from
  \<open>Object.prototype\<close>; the setter ignores a value that is a string or undefined, so
  nothing is stored under that name. Every other name gets an own property. A name whose
  index has no captured text is assigned \<open>undefined\<close>, which reads like an absent key.
\<close>

fun pack_params :: "string list \<Rightarrow> nat \<Rightarrow> string list \<Rightarrow> Params \<Rightarrow> Params" where
  "pack_params [] i groups params = params"
| "pack_params (name # names) i groups params =
     pack_params names (Suc i) groups
       (if name = ''__proto__'' then params
        else params(name := (if i < length groups then Some (groups ! i) else None)))"

text \<open>\<open>Route.match\<close>; \<open>None\<close> is the result \<open>null\<close>.\<close>

definition match :: "'w Route \<Rightarrow> request \<Rightarrow> Params option" where
  "match route req =
     (if truthy (req_method req) \<and> toUpperCase (the (req_method req)) = method route
         \<and> truthy (req_url req)
      then (case rx_exec (regex route) (the (req_url req)) of
              Some groups \<Rightarrow> Some (pack_params (paramNames route) 0 groups Map.empty)
            | None \<Rightarrow> None)
      else None)"

definition notFoundHandler :: "'w Handler" where
  "notFoundHandler req res w = (res_end ''not found'' (res\<lparr>statusCode := 404\<rparr>), w)"

text \<open>
  The loop of the handler that \<open>dispatch(routes, notFound)\<close> returns, applied to a
  request. An object of captured parameters is truthy also when it is empty, so only
  \<open>null\<close> moves on to the next route.
\<close>

fun try_routes :: "'w Route list \<Rightarrow> 'w Handler \<Rightarrow> 'w Handler" where
  "try_routes [] notFound req res w = notFound req res w"
| "try_routes (route # routes) notFound req res w =
     (case match route req of
        Some params \<Rightarrow> handler route req res params w
      | None \<Rightarrow> try_routes routes notFound req res w)"

text \<open>
  \<open>dispatch(routes, notFound=notFoundHandler)\<close>: an omitted second argument
  (\<open>None\<close>) takes the default.
\<close>

definition dispatch :: "'w Route list \<Rightarrow> 'w Handler option \<Rightarrow> 'w Handler" where
  "dispatch routes notFound =
     try_routes routes (case notFound of None \<Rightarrow> notFoundHandler | Some f \<Rightarrow> f)"

subsection \<open>What the description of the router says\<close>

text \<open>
  The compiled form of a split template, in the words of the description: a literal
  segment stands for itself, character by character, and a placeholder is a capture group
  that takes no slash.
\<close>

fun template_items :: "string list \<Rightarrow> rx list" where
  "template_items [] = []"
| "template_items [lit] = map RChar lit"
| "template_items (lit # name # rest) = map RChar lit @ RGroup # template_items rest"

fun template_names :: "string list \<Rightarrow> string list" where
  "template_names (lit # name # rest) = name # template_names rest"
| "template_names parts = []"


text \<open>The path that a split template describes when its placeholders take the given texts.\<close>

fun fill :: "string list \<Rightarrow> string list \<Rightarrow> string" where
  "fill (lit # name # rest) (g # gs) = lit @ g @ fill rest gs"
| "fill (lit # rest) gs = lit"
| "fill [] gs = []"




text \<open>The source text and the names that the constructor's loop adds for a list of parts.\<close>

fun parts_source :: "bool \<Rightarrow> string list \<Rightarrow> string" where
  "parts_source b [] = []"
| "parts_source b (p # ps) = (if b then ''([^/]*)'' else escapeRegExp p) @ parts_source (\<not> b) ps"

fun parts_names :: "bool \<Rightarrow> string list \<Rightarrow> string list" where
  "parts_names b [] = []"
| "parts_names b (p # ps) = (if b then [p] else []) @ parts_names (\<not> b) ps"

section \<open>The named-future registry\<close>

text \<open>
  Modelled from the spec: the class \<open>IVars\<close> (imported from \<open>lib/util\<close>) is not among
  the sources. A slot is in one of the states of the description; a token without a slot is
  \<open>unregistered\<close>.
\<close>

datatype 'v slot = AwaitingValue | HasValue 'v | Consumed

type_synonym 'v IVars = "string \<rightharpoonup> 'v slot"

text \<open>The result of a call that the description declares undefined.\<close>

datatype contract_error = Undefined

text \<open>
  Modelled from the spec: \<open>get(token)\<close> of the absent class \<open>IVars\<close>. An absent token
  is registered and the caller is suspended (the result \<open>None\<close>); a slot that holds a
  value resumes the caller at once with it (the result \<open>Some v\<close>) and is consumed. A
  \<open>get\<close> on a slot that already waits, or that is consumed, finds no value: the caller
  is suspended and the slot stays as it is (it has at most one pending consumer, and
  consumed is terminal).
\<close>

definition IVars_get :: "string \<Rightarrow> 'v IVars \<Rightarrow> contract_error + ('v option \<times> 'v IVars)" where
  "IVars_get t reg =
     (case reg t of
        None \<Rightarrow> Inr (None, reg(t \<mapsto> AwaitingValue))
      | Some (HasValue v) \<Rightarrow> Inr (Some v, reg(t \<mapsto> Consumed))
      | Some AwaitingValue \<Rightarrow> Inr (None, reg)
      | Some Consumed \<Rightarrow> Inr (None, reg))"

text \<open>
  Modelled from the spec: \<open>has(token)\<close> of the absent class \<open>IVars\<close>, the existence
  check of a registered slot.
\<close>

definition IVars_has :: "string \<Rightarrow> 'v IVars \<Rightarrow> bool" where
  "IVars_has t reg = (reg t \<noteq> None)"

text \<open>
  Modelled from the spec: \<open>put(token, value)\<close> of the absent class \<open>IVars\<close>. A
  suspended consumer is resumed with the value (the result \<open>Some v\<close>) and the slot is
  consumed; otherwise the value is stored for a future \<open>get\<close> (the result \<open>None\<close>),
  in the place of a value that the slot may hold. A \<open>put\<close> after consumption is the
  one call that the description declares undefined.
\<close>

definition IVars_put :: "string \<Rightarrow> 'v \<Rightarrow> 'v IVars \<Rightarrow> contract_error + ('v option \<times> 'v IVars)" where
  "IVars_put t v reg =
     (case reg t of
        Some AwaitingValue \<Rightarrow> Inr (Some v, reg(t \<mapsto> Consumed))
      | None \<Rightarrow> Inr (None, reg(t \<mapsto> HasValue v))
      | Some (HasValue u) \<Rightarrow> Inr (None, reg(t \<mapsto> HasValue v))
      | Some Consumed \<Rightarrow> Inl Undefined)"

text \<open>
  Calls on the registry as data, and a run of calls: the result lists, in order, the
  deliveries (the token and the value that its consumer received) and gives the registry
  after the last call. A run ends with the first call that is undefined.
\<close>

datatype 'v ivar_op = Get string | Put string 'v

fun op_token :: "'v ivar_op \<Rightarrow> string" where
  "op_token (Get t) = t"
| "op_token (Put t v) = t"

fun IVars_step :: "'v ivar_op \<Rightarrow> 'v IVars \<Rightarrow> contract_error + ('v option \<times> 'v IVars)" where
  "IVars_step (Get t) reg = IVars_get t reg"
| "IVars_step (Put t v) reg = IVars_put t v reg"

fun IVars_run :: "'v ivar_op list \<Rightarrow> 'v IVars \<Rightarrow> contract_error + ((string \<times> 'v) list \<times> 'v IVars)" where
  "IVars_run [] reg = Inr ([], reg)"
| "IVars_run (c # cs) reg =
     (case IVars_step c reg of
        Inl e \<Rightarrow> Inl e
      | Inr (d, reg') \<Rightarrow>
          (case IVars_run cs reg' of
             Inl e \<Rightarrow> Inl e
           | Inr (ds, reg'') \<Rightarrow>
               Inr ((case d of None \<Rightarrow> [] | Some v \<Rightarrow> [(op_token c, v)]) @ ds, reg'')))"

text \<open>The values delivered to consumers of one token, and the values put on it.\<close>

definition delivered :: "string \<Rightarrow> (string \<times> 'v) list \<Rightarrow> 'v list" where
  "delivered t ds = map snd (filter (\<lambda>d. fst d = t) ds)"

fun puts :: "string \<Rightarrow> 'v ivar_op list \<Rightarrow> 'v list" where
  "puts t [] = []"
| "puts t (Get u # cs) = puts t cs"
| "puts t (Put u v # cs) = (if u = t then v # puts t cs else puts t cs)"

text \<open>The values that a slot holds and that no consumer has claimed.\<close>

fun unclaimed :: "'v slot option \<Rightarrow> 'v list" where
  "unclaimed (Some (HasValue v)) = [v]"
| "unclaimed s = []"

text \<open>How many deliveries a slot can still make: none once it is consumed.\<close>

fun deliveries_left :: "'v slot option \<Rightarrow> nat" where
  "deliveries_left (Some Consumed) = 0"
| "deliveries_left s = 1"

section \<open>The spool\<close>

text \<open>
  Modelled from the spec: the class \<open>Spool\<close> (imported from \<open>multibot/basebot\<close>) is
  not among the sources. The state of a spool is the set of the keys that have a waiter
  suspended in \<open>wait\<close>; there is at most one waiter for a key.
\<close>

type_synonym 'k Spool = "'k set"

text \<open>
  Modelled from the spec: \<open>wait(key)\<close> of the absent class \<open>Spool\<close> registers the
  caller as the waiter for the key and suspends it; a second concurrent \<open>wait\<close> for the
  same key is undefined.
\<close>

definition Spool_wait :: "'k \<Rightarrow> 'k Spool \<Rightarrow> contract_error + 'k Spool" where
  "Spool_wait k sp = (if k \<in> sp then Inl Undefined else Inr (insert k sp))"

text \<open>
  Modelled from the spec: \<open>dispatch(key, value)\<close> of the absent class \<open>Spool\<close>. The
  result is the flag \<open>handled\<close>, the value with which the waiter for the key resumes
  (\<open>None\<close> when nobody resumes) and the spool afterwards. A value that is not handled is
  dropped.
\<close>

definition Spool_dispatch :: "'k \<Rightarrow> 'v \<Rightarrow> 'k Spool \<Rightarrow> bool \<times> 'v option \<times> 'k Spool" where
  "Spool_dispatch k v sp = (if k \<in> sp then (True, Some v, sp - {k}) else (False, None, sp))"

section \<open>The conversation orchestrator\<close>

subsection \<open>Settings, users and the state of the bot\<close>

datatype service = Caldav | Office

record caldav_settings =
  url :: "string option"
  username :: "string option"
  password :: "string option"

text \<open>The OAuth token of the Office client is opaque to the bot.\<close>

type_synonym office_token = string

record Settings =
  service :: "service option"
  caldav :: "caldav_settings option"
  officeToken :: "office_token option"

text \<open>The object \<open>{}\<close>.\<close>

definition no_settings :: Settings where
  "no_settings = \<lparr>service = None, caldav = None, officeToken = None\<rparr>"

record User =
  slack_id :: string
  settings :: Settings

record Conversation =
  user :: string

text \<open>
  The fields of \<open>OpalBot\<close> and the part of the world that its methods change:
  \<^item> \<open>users\<close> is the collection of the database, keyed by \<open>slack_id\<close>, and \<open>saves\<close>
    counts the calls of \<open>db.saveDatabase()\<close>;
  \<^item> \<open>officeClient\<close> is \<open>None\<close> for \<open>null\<close>, and otherwise the URL with which
    \<open>authenticate()\<close> of the client resolves;
  \<^item> \<open>sent\<close> lists the messages sent with \<open>conv.send\<close>, with the user they went to;
  \<^item> \<open>webSessions\<close> is the registry as it is when a method starts, \<open>calls\<close> lists the
    calls of \<open>get\<close> and \<open>put\<close> that the methods have made on it (what they do to the
    registry is \<open>IVars_run\<close>), and \<open>officeCallbacks\<close> lists the tokens for which a
    callback waits for the OAuth token of the Office client.
\<close>

record OpalBot =
  webURL :: string
  users :: "string \<rightharpoonup> Settings"
  saves :: nat
  officeClient :: "string option"
  webSessions :: "Settings IVars"
  calls :: "Settings ivar_op list"
  officeCallbacks :: "string list"
  sent :: "(string \<times> string) list"

text \<open>
  An \<open>async\<close> method either returns or is suspended in \<open>await this.webSessions.get(token)\<close>;
  no method awaits the registry twice. \<open>Await token k\<close> is the suspended method: when the
  registry delivers the settings, \<open>k\<close> runs on them and on the state of that moment.
  Awaited calls to the other collaborators (the language service, the calendar, the form
  parser) are taken with the result they resolve to.
\<close>

datatype 'a proc = Done 'a | Await string "Settings \<Rightarrow> OpalBot \<Rightarrow> OpalBot \<times> 'a"

text \<open>What follows an awaited method in its caller.\<close>

fun then_proc :: "OpalBot \<times> 'a proc \<Rightarrow> ('a \<Rightarrow> OpalBot \<Rightarrow> OpalBot \<times> 'b) \<Rightarrow> OpalBot \<times> 'b proc" where
  "then_proc (st, Done a) f = (case f a st of (st', b) \<Rightarrow> (st', Done b))"
| "then_proc (st, Await token k) f =
     (st, Await token (\<lambda>s st'. case k s st' of (st'', a) \<Rightarrow> f a st''))"

datatype js_error = TypeError

datatype calendar =
  CaldavCalendar "string option" "string option" "string option"
| OfficeCalendar "office_token option"

subsection \<open>The settings route\<close>

text \<open>
  The handler of the route \<open>/settings/:token\<close>. The template engine and the form parser
  are collaborators: \<open>render\<close> is the text that \<open>nunjucks.render\<close> produces for a
  template and a context, \<open>formdata\<close> the fields that \<open>libweb.formdata\<close> reads from the
  request. \<open>libweb.notFound\<close> is the not-found handler of the router. The
  registry has strings as keys, so \<open>has\<close> of an undefined token is false.
\<close>

definition settingsRoute_handler ::
  "(string \<Rightarrow> (string \<rightharpoonup> string) \<Rightarrow> string) \<Rightarrow> (request \<Rightarrow> string \<rightharpoonup> string) \<Rightarrow> OpalBot RouteHandler" where
  "settingsRoute_handler render formdata req res params self =
     (let token = params ''token'' in
      if \<not> (case token of None \<Rightarrow> False | Some t \<Rightarrow> IVars_has t (webSessions self))
      then (res_end ''invalid token'' (res\<lparr>statusCode := 404\<rparr>), self)
      else if req_method req = Some ''GET'' then
        (case officeClient self of
           None \<Rightarrow> (res_end (render ''settings.html'' Map.empty) res, self)
         | Some auth_url \<Rightarrow>
             (res_end (render ''settings.html'' [''officeAuthURL'' \<mapsto> auth_url]) res,
              self\<lparr>officeCallbacks := officeCallbacks self @ [the token]\<rparr>))
      else if req_method req = Some ''POST'' then
        (let data = formdata req in
         if data ''service'' = Some ''caldav''
         then (let settings = \<lparr>service = Some Caldav,
                                caldav = Some \<lparr>url = data ''url'',
                                               username = data ''username'',
                                               password = data ''password''\<rparr>,
                                officeToken = None\<rparr>
               in (res_end ''got it; thanks!'' res,
                   self\<lparr>calls := calls self @ [Put (the token) settings]\<rparr>))
         else (res_end ''sorry; I did not understand the form'' res, self))
      else notFoundHandler req res self)"

text \<open>
  The callback \<open>auth.token.then(t => ...)\<close> that the GET branch registers, run when the
  OAuth token \<open>t\<close> arrives.
\<close>

definition officeToken_callback :: "office_token \<Rightarrow> string \<Rightarrow> OpalBot \<Rightarrow> OpalBot" where
  "officeToken_callback t token self =
     self\<lparr>calls := calls self @
            [Put token \<lparr>service = Some Office, caldav = None, officeToken = Some t\<rparr>]\<rparr>"

subsection \<open>Users, settings and calendars\<close>

definition send :: "Conversation \<Rightarrow> string \<Rightarrow> OpalBot \<Rightarrow> OpalBot" where
  "send conv text st = st\<lparr>sent := sent st @ [(user conv, text)]\<rparr>"

definition getUser :: "Conversation \<Rightarrow> OpalBot \<Rightarrow> User \<times> OpalBot" where
  "getUser conv st =
     (case users st (user conv) of
        Some s \<Rightarrow> (\<lparr>slack_id = user conv, settings = s\<rparr>, st)
      | None \<Rightarrow>
          (\<lparr>slack_id = user conv, settings = no_settings\<rparr>,
           st\<lparr>users := (users st)(user conv \<mapsto> no_settings), saves := Suc (saves st)\<rparr>))"

text \<open>
  \<open>gatherSettings\<close>; \<open>token\<close> is the string that \<open>randomString()\<close> returns.
\<close>

definition gatherSettings :: "Conversation \<Rightarrow> string \<Rightarrow> OpalBot \<Rightarrow> OpalBot \<times> Settings proc" where
  "gatherSettings conv token st =
     (let st1 = send conv (''please fill out the form at '' @ webURL st @ ''/settings/'' @ token) st
      in (st1\<lparr>calls := calls st1 @ [Get token]\<rparr>, Await token (\<lambda>s st'. (st', s))))"

text \<open>
  The last statements of \<open>getCalendar\<close>, which choose the calendar for the settings.
  Reading \<open>cd.url\<close> when \<open>settings.caldav\<close> is undefined throws.
\<close>

definition calendar_for :: "Settings \<Rightarrow> js_error + calendar option" where
  "calendar_for s =
     (if service s = Some Caldav then
        (case caldav s of
           None \<Rightarrow> Inl TypeError
         | Some cd \<Rightarrow> Inr (Some (CaldavCalendar (url cd) (username cd) (password cd))))
      else if service s = Some Office then Inr (Some (OfficeCalendar (officeToken s)))
      else Inr None)"

definition getCalendar ::
  "Conversation \<Rightarrow> bool \<Rightarrow> string \<Rightarrow> OpalBot \<Rightarrow> OpalBot \<times> (js_error + calendar option) proc" where
  "getCalendar conv force token st =
     (case getUser conv st of
        (u, st1) \<Rightarrow>
          if force \<or> service (settings u) = None
          then then_proc (gatherSettings conv token st1)
                 (\<lambda>s st'. (st'\<lparr>users := (users st')(slack_id u \<mapsto> s), saves := Suc (saves st')\<rparr>,
                            calendar_for s))
          else (st1, Done (calendar_for (settings u))))"

text \<open>
  \<open>getSomeEvents\<close>; \<open>getEvents\<close> gives, for a calendar, the formatted start and the
  title of the events of the next seven days.
\<close>

fun join_lines :: "string list \<Rightarrow> string" where
  "join_lines [] = []"
| "join_lines [l] = l"
| "join_lines (l # ls) = l @ [CHR 0x0A] @ join_lines ls"

definition getSomeEvents :: "(calendar \<Rightarrow> (string \<times> string) list) \<Rightarrow> calendar \<Rightarrow> string" where
  "getSomeEvents getEvents cal = join_lines (map (\<lambda>(start, title). start @ '': '' @ title) (getEvents cal))"

subsection \<open>The intent handlers and \<open>interact\<close>\<close>

type_synonym outcome = "OpalBot \<times> (js_error + unit) proc"

definition handle_greeting :: "Conversation \<Rightarrow> OpalBot \<Rightarrow> outcome" where
  "handle_greeting conv st = (send conv ''hi!'' st, Done (Inr ()))"

definition handle_bye :: "Conversation \<Rightarrow> OpalBot \<Rightarrow> outcome" where
  "handle_bye conv st = (send conv '':wave: I'll be right here'' st, Done (Inr ()))"

definition handle_thanks :: "Conversation \<Rightarrow> OpalBot \<Rightarrow> outcome" where
  "handle_thanks conv st = (send conv ''nbd yo'' st, Done (Inr ()))"

definition handle_show_calendar ::
  "(calendar \<Rightarrow> (string \<times> string) list) \<Rightarrow> string \<Rightarrow> Conversation \<Rightarrow> OpalBot \<Rightarrow> outcome" where
  "handle_show_calendar getEvents token conv st =
     then_proc (getCalendar conv False token (send conv ''let's get your calendar!'' st))
       (\<lambda>cal st'. case cal of
                     Inl e \<Rightarrow> (st', Inl e)
                   | Inr None \<Rightarrow> (st', Inr ())
                   | Inr (Some c) \<Rightarrow> (send conv (getSomeEvents getEvents c) st', Inr ()))"

definition handle_schedule_meeting :: "Conversation \<Rightarrow> OpalBot \<Rightarrow> outcome" where
  "handle_schedule_meeting conv st =
     (send conv (''let's get to schedulin'! '' @ ''[actually this is not quite implemented yet]'') st,
      Done (Inr ()))"

definition handle_setup_calendar :: "string \<Rightarrow> Conversation \<Rightarrow> OpalBot \<Rightarrow> outcome" where
  "handle_setup_calendar token conv st =
     then_proc (getCalendar conv True token st)
       (\<lambda>cal st'. case cal of
                     Inl e \<Rightarrow> (st', Inl e)
                   | Inr c \<Rightarrow> (send conv ''ok, all set!'' st', Inr ()))"

definition handle_help :: "Conversation \<Rightarrow> OpalBot \<Rightarrow> outcome" where
  "handle_help conv st = (send conv ''I can schedule a meeting or show your calendar'' st, Done (Inr ()))"

definition handle_default :: "Conversation \<Rightarrow> OpalBot \<Rightarrow> outcome" where
  "handle_default conv st = (send conv '':confused: :grey_question:'' st, Done (Inr ()))"

text \<open>
  \<open>interact\<close>, from the result \<open>res\<close> that \<open>this.wit.message(text, {})\<close> resolves to.
  The helpers of \<open>lib/wit\<close> are parameters: \<open>getEntity res name\<close> says whether
  \<open>wit.getEntity(res, name)\<close> is truthy, and \<open>entityValue res name\<close> is the string
  that \<open>wit.entityValue(res, name)\<close> returns, if it returns one. \<open>token\<close> is the string
  that \<open>randomString()\<close> would return.
\<close>

definition interact ::
  "('r \<Rightarrow> string \<Rightarrow> bool) \<Rightarrow> ('r \<Rightarrow> string \<Rightarrow> string option) \<Rightarrow>
   (calendar \<Rightarrow> (string \<times> string) list) \<Rightarrow> string \<Rightarrow> 'r \<Rightarrow> Conversation \<Rightarrow> OpalBot \<Rightarrow> outcome" where
  "interact getEntity entityValue getEvents token res conv st =
     (if getEntity res ''greetings'' then handle_greeting conv st
      else if getEntity res ''bye'' then handle_bye conv st
      else if getEntity res ''thanks'' then handle_thanks conv st
      else (let intent = entityValue res ''intent'' in
            if intent = Some ''show_calendar'' then handle_show_calendar getEvents token conv st
            else if intent = Some ''schedule_meeting'' then handle_schedule_meeting conv st
            else if intent = Some ''setup_calendar'' then handle_setup_calendar token conv st
            else if intent = Some ''help'' then handle_help conv st
            else handle_default conv st))"

text \<open>The calls on the registry that a method has added to the state.\<close>

definition new_calls :: "OpalBot \<Rightarrow> OpalBot \<Rightarrow> Settings ivar_op list" where
  "new_calls before after = drop (length (calls before)) (calls after)"

section \<open>Example inputs\<close>

text \<open>Two routes with overlapping patterns, the parameterised one first, and a fresh response.\<close>

definition user_page :: "unit RouteHandler" where
  "user_page req res ps w = (res_end (''user '' @ (case ps ''id'' of None \<Rightarrow> [] | Some x \<Rightarrow> x)) res, w)"

definition admin_page :: "unit RouteHandler" where
  "admin_page req res ps w = (res_end ''admin page'' res, w)"

definition example_routes :: "unit Route list" where
  "example_routes =
     [the (Route_new ''GET'' ''/users/:id'' user_page),
      the (Route_new ''GET'' ''/users/admin'' admin_page)]"

definition fresh_response :: response where
  "fresh_response = \<lparr>statusCode = 200, body = [], finished = False\<rparr>"



definition post_route :: "unit Route" where
  "post_route = the (Route_new ''GET'' ''/users/:id/posts/:post'' user_page)"


text \<open>A run of registry calls on two tokens, with three \<open>get\<close> calls on one of them.\<close>

definition example_calls :: "nat ivar_op list" where
  "example_calls = [Put ''a'' 5, Get ''t'', Get ''t'', Put ''t'' 7, Get ''t'', Get ''a'']"

text \<open>
  A bot with one user, who has configured the Office service, and one pending token; stand-ins
  for the template engine, the form parser, the helpers of the language service and the
  calendar; a conversation with the known user and one with a new user.
\<close>

definition example_bot :: OpalBot where
  "example_bot =
     \<lparr>webURL = ''http://localhost:5000'',
      users = [''U1'' \<mapsto> \<lparr>service = Some Office, caldav = None, officeToken = Some ''oauth''\<rparr>],
      saves = 0,
      officeClient = None,
      webSessions = [''tok1'' \<mapsto> AwaitingValue],
      calls = [],
      officeCallbacks = [],
      sent = []\<rparr>"

definition example_render :: "string \<Rightarrow> (string \<rightharpoonup> string) \<Rightarrow> string" where
  "example_render template ctx = ''<form>''"

definition example_formdata :: "request \<Rightarrow> string \<rightharpoonup> string" where
  "example_formdata req =
     (if req_body req = ''service=caldav&url=u&username=n&password=p''
      then [''service'' \<mapsto> ''caldav'', ''url'' \<mapsto> ''u'', ''username'' \<mapsto> ''n'', ''password'' \<mapsto> ''p'']
      else if req_body req = ''service=office'' then [''service'' \<mapsto> ''office'']
      else Map.empty)"

definition example_getEntity :: "(string \<times> string) list \<Rightarrow> string \<Rightarrow> bool" where
  "example_getEntity res name = (map_of res name \<noteq> None)"

definition example_entityValue :: "(string \<times> string) list \<Rightarrow> string \<Rightarrow> string option" where
  "example_entityValue res name = map_of res name"

definition example_getEvents :: "calendar \<Rightarrow> (string \<times> string) list" where
  "example_getEvents cal = [(''2017-06-01T10:00:00'', ''standup''), (''2017-06-02T12:00:00'', ''lunch'')]"

definition example_conv :: Conversation where
  "example_conv = \<lparr>user = ''U1''\<rparr>"

definition new_conv :: Conversation where
  "new_conv = \<lparr>user = ''U2''\<rparr>"

section \<open>Properties of the path router\<close>

subsection \<open>Compiling a template\<close>

lemma RegExp_new_escape:
  "RegExp_new (escapeRegExp s @ rest) = map_option ((@) (map RChar s)) (RegExp_new rest)"
proof (induction s)
  case Nil
  show ?case by (simp add: option.map_ident)
next
  case (Cons c s)
  show ?case
  proof (cases "is_special c")
    case True
    then show ?thesis using Cons by (simp add: option.map_comp comp_def)
  next
    case False
    then have "c \<noteq> CHR 0x5C" "c \<noteq> CHR ''^''" "c \<noteq> CHR ''$''" "c \<noteq> CHR ''(''"
      by (auto simp: is_special_def)
    with False show ?thesis using Cons by (simp add: option.map_comp comp_def)
  qed
qed

lemma RegExp_new_group:
  "RegExp_new (''([^/]*)'' @ rest) = map_option ((#) RGroup) (RegExp_new rest)"
  by simp











lemma compile_parts_acc:
  "fst (compile_parts parts (names, pr, b)) = names @ parts_names b parts \<and>
   fst (snd (compile_parts parts (names, pr, b))) = pr @ parts_source b parts"
  by (induction parts arbitrary: names pr b) auto

lemma parts_names_template: "parts_names False parts = template_names parts"
  by (induction parts rule: template_items.induct) auto

lemma RegExp_new_parts:
  "RegExp_new (parts_source False parts @ rest) =
     map_option ((@) (template_items parts)) (RegExp_new rest)"
proof (induction parts rule: template_items.induct)
  case 1
  show ?case by (simp add: option.map_ident)
next
  case (2 lit)
  show ?case by (simp add: RegExp_new_escape)
next
  case (3 lit name rest')
  have "RegExp_new (parts_source False (lit # name # rest') @ rest) =
        RegExp_new (escapeRegExp lit @ (''([^/]*)'' @ (parts_source False rest' @ rest)))"
    by simp
  also have "\<dots> = map_option ((@) (map RChar lit))
        (map_option ((#) RGroup) (RegExp_new (parts_source False rest' @ rest)))"
    unfolding RegExp_new_escape RegExp_new_group ..
  also have "\<dots> = map_option ((@) (template_items (lit # name # rest'))) (RegExp_new rest)"
    by (cases "RegExp_new rest") (simp_all add: 3)
  finally show ?case .
qed

lemma RegExp_new_regex_source:
  "RegExp_new (regex_source pat) = Some (RBegin # template_items (split_params [] pat) @ [REnd])"
proof -
  have "RegExp_new ''$'' = Some [REnd]" by simp
  then have "RegExp_new (parts_source False (split_params [] pat) @ ''$'') =
      Some (template_items (split_params [] pat) @ [REnd])"
    by (simp add: RegExp_new_parts)
  then show ?thesis
    using compile_parts_acc [of "split_params [] pat" "[]" "[]" False]
    by (simp add: regex_source_def)
qed








lemma rx_exec_from_anchored: "rx_exec_from (RBegin # r) False s = None"
  by (induction s) auto

lemma rx_exec_anchored: "rx_exec (RBegin # r) s = rx_match r True s"
  by (cases s) (auto simp: rx_exec_def rx_exec_from_anchored split: option.splits)




lemma Route_new_eq:
  "Route_new m pat h =
     Some \<lparr>method = m, pattern = toUpperCase pat,
           paramNames = template_names (split_params [] pat),
           regex = RBegin # template_items (split_params [] pat) @ [REnd],
           handler = h\<rparr>"
  using compile_parts_acc [of "split_params [] pat" "[]" "[]" False]
  by (simp add: Route_new_def RegExp_new_regex_source parts_names_template)

lemma split_settings: "split_params [] ''/settings/:token'' = [''/settings/'', ''token'', []]"
  by (simp add: is_word_def)








subsection \<open>The method of a route\<close>

lemma upper_char_not_g: "upper_char c \<noteq> CHR ''g''"
  unfolding upper_char_def by (simp split: if_splits)

lemma toUpperCase_not_get: "toUpperCase s \<noteq> ''get''"
proof
  assume "toUpperCase s = ''get''"
  then obtain u where "map upper_char u = ''get''"
    by (metis toUpperCase_def)
  then obtain c where "upper_char c = CHR ''g''"
    by (cases u) auto
  with upper_char_not_g show False by blast
qed

text \<open>
  Claim C5 says that a route matches when the method of the request equals the method of
  the route case-insensitively, so that a route constructed with \<open>get\<close> matches a
  \<open>GET\<close> request. The constructor stores the method as given (it upper-cases the
  template into the field \<open>pattern\<close> instead), and \<open>match\<close> compares the upper-cased
  method of the request with it: the route constructed with \<open>get\<close> for
  \<open>/settings/:token\<close> keeps the method \<open>get\<close>, its expression matches the path
  \<open>/settings/abc123\<close>, and \<open>match\<close> returns \<open>null\<close> for the request
  \<open>GET /settings/abc123\<close>, for \<open>get /settings/abc123\<close> and for every other
  request, since no upper-cased method equals \<open>get\<close>.
\<close>

theorem route_lowercase_method_no_match:
  "\<exists>route. Route_new ''get'' ''/settings/:token'' h = Some route
     \<and> method route = ''get''
     \<and> rx_exec (regex route) ''/settings/abc123'' = Some [''abc123'']
     \<and> match route \<lparr>req_method = Some ''GET'', req_url = Some ''/settings/abc123'', req_body = []\<rparr> = None
     \<and> match route \<lparr>req_method = Some ''get'', req_url = Some ''/settings/abc123'', req_body = []\<rparr> = None
     \<and> (\<forall>req. match route req = None)"
  unfolding Route_new_eq split_settings
  by (simp add: match_def toUpperCase_not_get rx_exec_anchored)

subsection \<open>Dispatching\<close>

lemma try_routes_first:
  "i < length routes \<Longrightarrow> match (routes ! i) req = Some ps \<Longrightarrow>
   (\<forall>j<i. match (routes ! j) req = None) \<Longrightarrow>
     try_routes routes nf req res w = handler (routes ! i) req res ps w"
proof (induction routes arbitrary: i)
  case Nil
  then show ?case by simp
next
  case (Cons r routes)
  show ?case
  proof (cases i)
    case 0
    with Cons.prems show ?thesis by simp
  next
    case (Suc i')
    with Cons.prems(3) have r: "match r req = None" by auto
    have "\<forall>j<i'. match (routes ! j) req = None"
      using Cons.prems(3) Suc by auto
    with Cons.IH [of i'] Cons.prems(1,2) Suc r show ?thesis by simp
  qed
qed

lemma try_routes_none:
  "\<forall>route\<in>set routes. match route req = None \<Longrightarrow> try_routes routes nf req res w = nf req res w"
  by (induction routes) auto

lemma notFoundHandler_eq:
  "notFoundHandler req res w =
     (res\<lparr>statusCode := 404, body := body res @ ''not found'', finished := True\<rparr>, w)"
  by (simp add: notFoundHandler_def res_end_def)

text \<open>
  Claim C6. If route \<open>i\<close> of the list matches the request with parameters \<open>ps\<close> and
  no route before it matches, the dispatcher does exactly what the handler of route \<open>i\<close>
  does with \<open>ps\<close> (no other handler runs, whatever the later routes are). If no route
  matches, it does what \<open>notFound\<close> does, and the default \<open>notFound\<close> sets the status
  404 and ends the response with the body \<open>not found\<close>; so does every request against
  the empty list.
\<close>

theorem dispatch_order_and_fallback:
  "(\<forall>i ps. i < length routes \<and> match (routes ! i) req = Some ps
        \<and> (\<forall>j<i. match (routes ! j) req = None)
      \<longrightarrow> dispatch routes notFound req res w = handler (routes ! i) req res ps w)
   \<and> ((\<forall>route\<in>set routes. match route req = None)
      \<longrightarrow> dispatch routes (Some nf) req res w = nf req res w
        \<and> dispatch routes None req res w =
            (res\<lparr>statusCode := 404, body := body res @ ''not found'', finished := True\<rparr>, w))
   \<and> dispatch [] None req res w =
        (res\<lparr>statusCode := 404, body := body res @ ''not found'', finished := True\<rparr>, w)"
proof (intro conjI allI impI)
  fix i ps
  assume "i < length routes \<and> match (routes ! i) req = Some ps
        \<and> (\<forall>j<i. match (routes ! j) req = None)"
  then show "dispatch routes notFound req res w = handler (routes ! i) req res ps w"
    by (simp add: dispatch_def try_routes_first)
next
  assume none: "\<forall>route\<in>set routes. match route req = None"
  show "dispatch routes (Some nf) req res w = nf req res w"
    using try_routes_none [OF none] by (simp add: dispatch_def)
  show "dispatch routes None req res w =
            (res\<lparr>statusCode := 404, body := body res @ ''not found'', finished := True\<rparr>, w)"
    using try_routes_none [OF none] by (simp add: dispatch_def notFoundHandler_eq)
next
  show "dispatch [] None req res w =
        (res\<lparr>statusCode := 404, body := body res @ ''not found'', finished := True\<rparr>, w)"
    by (simp add: dispatch_def notFoundHandler_eq)
qed

lemma split_users_id: "split_params [] ''/users/:id'' = [''/users/'', ''id'', []]"
  by (simp add: is_word_def)

lemma split_users_admin: "split_params [] ''/users/admin'' = [''/users/admin'']"
  by (simp add: is_word_def)

lemma example_routes_eq:
  "example_routes =
     [\<lparr>method = ''GET'', pattern = toUpperCase ''/users/:id'', paramNames = [''id''],
       regex = RBegin # template_items [''/users/'', ''id'', []] @ [REnd], handler = user_page\<rparr>,
      \<lparr>method = ''GET'', pattern = toUpperCase ''/users/admin'', paramNames = [],
       regex = RBegin # template_items [''/users/admin''] @ [REnd], handler = admin_page\<rparr>]"
  unfolding example_routes_def Route_new_eq split_users_id split_users_admin by simp

lemma example_match_first:
  "match (example_routes ! 0) \<lparr>req_method = Some ''GET'', req_url = Some ''/users/admin'', req_body = []\<rparr>
     = Some [''id'' \<mapsto> ''admin'']"
  unfolding example_routes_eq
  by (simp add: match_def toUpperCase_def is_ascii_def upper_char_def rx_exec_anchored)

lemma example_match_second:
  "match (example_routes ! 1) \<lparr>req_method = Some ''GET'', req_url = Some ''/users/admin'', req_body = []\<rparr>
     = Some Map.empty"
  unfolding example_routes_eq
  by (simp add: match_def toUpperCase_def is_ascii_def upper_char_def rx_exec_anchored)

lemma example_no_match:
  "\<forall>route\<in>set example_routes.
     match route \<lparr>req_method = Some ''POST'', req_url = Some ''/nowhere'', req_body = []\<rparr> = None"
  unfolding example_routes_eq
  by (simp add: match_def toUpperCase_def is_ascii_def upper_char_def rx_exec_anchored)

text \<open>
  The theorem of C6 on the routes \<open>/users/:id\<close> and \<open>/users/admin\<close>: the request
  \<open>GET /users/admin\<close> matches both and is served by the first, and \<open>POST /nowhere\<close>
  matches neither.
\<close>

theorem dispatch_order_and_fallback_witness:
  "match (example_routes ! 0)
      \<lparr>req_method = Some ''GET'', req_url = Some ''/users/admin'', req_body = []\<rparr>
     = Some [''id'' \<mapsto> ''admin'']
   \<and> match (example_routes ! 1)
      \<lparr>req_method = Some ''GET'', req_url = Some ''/users/admin'', req_body = []\<rparr>
     = Some Map.empty
   \<and> dispatch example_routes None
        \<lparr>req_method = Some ''GET'', req_url = Some ''/users/admin'', req_body = []\<rparr>
        fresh_response ()
     = (\<lparr>statusCode = 200, body = ''user admin'', finished = True\<rparr>, ())
   \<and> dispatch example_routes None
        \<lparr>req_method = Some ''POST'', req_url = Some ''/nowhere'', req_body = []\<rparr>
        fresh_response ()
     = (\<lparr>statusCode = 404, body = ''not found'', finished = True\<rparr>, ())"
proof -
  let ?req = "\<lparr>req_method = Some ''GET'', req_url = Some ''/users/admin'', req_body = []\<rparr>"
  let ?other = "\<lparr>req_method = Some ''POST'', req_url = Some ''/nowhere'', req_body = []\<rparr>"
  have len: "0 < length example_routes" by (simp add: example_routes_def)
  have h: "handler (example_routes ! 0) = user_page" by (simp add: example_routes_eq)
  from dispatch_order_and_fallback [of example_routes ?req None fresh_response "()" undefined]
    len example_match_first
  have "dispatch example_routes None ?req fresh_response ()
      = handler (example_routes ! 0) ?req fresh_response [''id'' \<mapsto> ''admin''] ()"
    by simp
  then have first: "dispatch example_routes None ?req fresh_response ()
      = (\<lparr>statusCode = 200, body = ''user admin'', finished = True\<rparr>, ())"
    by (simp add: h user_page_def res_end_def fresh_response_def)
  from dispatch_order_and_fallback [of example_routes ?other None fresh_response "()" undefined]
    example_no_match
  have "dispatch example_routes None ?other fresh_response ()
      = (fresh_response\<lparr>statusCode := 404, body := body fresh_response @ ''not found'',
           finished := True\<rparr>, ())"
    by simp
  then have second: "dispatch example_routes None ?other fresh_response ()
      = (\<lparr>statusCode = 404, body = ''not found'', finished = True\<rparr>, ())"
    by (simp add: fresh_response_def)
  from example_match_first example_match_second first second show ?thesis by simp
qed

section \<open>Properties of the named-future registry\<close>

lemma IVars_step_token:
  "IVars_step c reg = Inr (d, reg') \<Longrightarrow> op_token c \<noteq> t \<Longrightarrow> reg' t = reg t"
  by (cases c) (auto simp: IVars_get_def IVars_put_def split: option.splits slot.splits)

lemma IVars_step_budget:
  "IVars_step c reg = Inr (d, reg') \<Longrightarrow> op_token c = t \<Longrightarrow>
     (case d of None \<Rightarrow> 0 | Some v \<Rightarrow> 1) + deliveries_left (reg' t) \<le> deliveries_left (reg t)"
  by (cases c) (auto simp: IVars_get_def IVars_put_def split: option.splits slot.splits)

lemma IVars_step_value:
  "IVars_step c reg = Inr (Some v, reg') \<Longrightarrow> op_token c = t \<Longrightarrow>
     v \<in> set (puts t [c]) \<union> set (unclaimed (reg t))"
  by (cases c) (auto simp: IVars_get_def IVars_put_def split: option.splits slot.splits)

lemma IVars_step_unclaimed:
  "IVars_step c reg = Inr (d, reg') \<Longrightarrow>
     set (unclaimed (reg' t)) \<subseteq> set (puts t [c]) \<union> set (unclaimed (reg t))"
  by (cases c) (auto simp: IVars_get_def IVars_put_def split: option.splits slot.splits if_splits)

lemma puts_Cons: "puts t (c # cs) = puts t [c] @ puts t cs"
  by (cases c) auto

lemma IVars_run_budget:
  "IVars_run cs reg = Inr (ds, reg') \<Longrightarrow>
     length (delivered t ds) + deliveries_left (reg' t) \<le> deliveries_left (reg t)"
proof (induction cs arbitrary: reg ds)
  case Nil
  then show ?case by (simp add: delivered_def)
next
  case (Cons c cs)
  from Cons.prems obtain d reg1 ds1 where
    step: "IVars_step c reg = Inr (d, reg1)" and run: "IVars_run cs reg1 = Inr (ds1, reg')"
    and ds: "ds = (case d of None \<Rightarrow> [] | Some v \<Rightarrow> [(op_token c, v)]) @ ds1"
    by (auto split: sum.splits prod.splits)
  note ih = Cons.IH [OF run]
  show ?case
  proof (cases "op_token c = t")
    case True
    from IVars_step_budget [OF step True] ih ds True show ?thesis
      by (auto simp: delivered_def split: option.splits)
  next
    case False
    from IVars_step_token [OF step False] ih ds False show ?thesis
      by (auto simp: delivered_def split: option.splits)
  qed
qed

lemma IVars_run_values:
  "IVars_run cs reg = Inr (ds, reg') \<Longrightarrow>
     set (delivered t ds) \<subseteq> set (puts t cs) \<union> set (unclaimed (reg t))"
proof (induction cs arbitrary: reg ds)
  case Nil
  then show ?case by (simp add: delivered_def)
next
  case (Cons c cs)
  from Cons.prems obtain d reg1 ds1 where
    step: "IVars_step c reg = Inr (d, reg1)" and run: "IVars_run cs reg1 = Inr (ds1, reg')"
    and ds: "ds = (case d of None \<Rightarrow> [] | Some v \<Rightarrow> [(op_token c, v)]) @ ds1"
    by (auto split: sum.splits prod.splits)
  have ih: "set (delivered t ds1) \<subseteq> set (puts t cs) \<union> set (unclaimed (reg1 t))"
    by (rule Cons.IH [OF run])
  have un: "set (unclaimed (reg1 t)) \<subseteq> set (puts t [c]) \<union> set (unclaimed (reg t))"
    by (rule IVars_step_unclaimed [OF step])
  have hd: "set (delivered t (case d of None \<Rightarrow> [] | Some v \<Rightarrow> [(op_token c, v)]))
      \<subseteq> set (puts t [c]) \<union> set (unclaimed (reg t))"
  proof (cases d)
    case None
    then show ?thesis by (simp add: delivered_def)
  next
    case (Some v)
    show ?thesis
    proof (cases "op_token c = t")
      case True
      from IVars_step_value [OF step [unfolded Some] True] Some True show ?thesis
        by (simp add: delivered_def)
    next
      case False
      with Some show ?thesis by (simp add: delivered_def)
    qed
  qed
  have "delivered t ds = delivered t (case d of None \<Rightarrow> [] | Some v \<Rightarrow> [(op_token c, v)]) @ delivered t ds1"
    by (simp add: ds delivered_def)
  with hd ih un show ?case
    by (subst puts_Cons) auto
qed

lemma IVars_run_append:
  "IVars_run (cs @ cs') reg = Inr (ds, reg'') \<Longrightarrow>
     \<exists>ds1 reg1 ds2. IVars_run cs reg = Inr (ds1, reg1) \<and> IVars_run cs' reg1 = Inr (ds2, reg'')
        \<and> ds = ds1 @ ds2"
proof (induction cs arbitrary: reg ds)
  case Nil
  then show ?case by simp
next
  case (Cons c cs)
  from Cons.prems obtain d reg1 ds1 where
    step: "IVars_step c reg = Inr (d, reg1)" and run: "IVars_run (cs @ cs') reg1 = Inr (ds1, reg'')"
    and ds: "ds = (case d of None \<Rightarrow> [] | Some v \<Rightarrow> [(op_token c, v)]) @ ds1"
    by (auto split: sum.splits prod.splits)
  from Cons.IH [OF run] obtain da ra db where
    "IVars_run cs reg1 = Inr (da, ra)" "IVars_run cs' ra = Inr (db, reg'')" "ds1 = da @ db"
    by blast
  with step ds show ?case by simp
qed

text \<open>
  Claim C1. For a token \<open>t\<close> that is not yet registered and every value \<open>v\<close>:
  \<open>put(t, v)\<close> stores the value and the following \<open>get(t)\<close> resumes at once with
  \<open>v\<close>; \<open>get(t)\<close> first is suspended and the following \<open>put(t, v)\<close> resumes it
  with \<open>v\<close>. In both orders the only delivery is \<open>v\<close> to the consumer of \<open>t\<close>,
  and the registry ends in the same state, with the slot consumed.
\<close>

theorem IVars_order_independence:
  "reg t = None \<Longrightarrow>
     IVars_put t v reg = Inr (None, reg(t \<mapsto> HasValue v))
   \<and> IVars_get t (reg(t \<mapsto> HasValue v)) = Inr (Some v, reg(t \<mapsto> Consumed))
   \<and> IVars_get t reg = Inr (None, reg(t \<mapsto> AwaitingValue))
   \<and> IVars_put t v (reg(t \<mapsto> AwaitingValue)) = Inr (Some v, reg(t \<mapsto> Consumed))
   \<and> IVars_run [Put t v, Get t] reg = Inr ([(t, v)], reg(t \<mapsto> Consumed))
   \<and> IVars_run [Get t, Put t v] reg = Inr ([(t, v)], reg(t \<mapsto> Consumed))"
  by (simp add: IVars_get_def IVars_put_def)

text \<open>The theorem of C1 on the empty registry.\<close>

theorem IVars_order_independence_witness:
  "(Map.empty :: nat IVars) ''tok'' = None
   \<and> IVars_run [Put ''tok'' (7::nat), Get ''tok''] Map.empty = Inr ([(''tok'', 7)], [''tok'' \<mapsto> Consumed])
   \<and> IVars_run [Get ''tok'', Put ''tok'' (7::nat)] Map.empty = Inr ([(''tok'', 7)], [''tok'' \<mapsto> Consumed])"
  using IVars_order_independence [of "Map.empty :: nat IVars" "''tok''" 7] by simp

lemma IVars_step_delivers:
  "IVars_step c reg = Inr (Some v, reg') \<Longrightarrow> reg' (op_token c) = Some Consumed"
  by (cases c) (auto simp: IVars_get_def IVars_put_def split: option.splits slot.splits)

lemma IVars_step_last:
  "IVars_step c reg = Inr (d, reg') \<Longrightarrow> (op_token c = t \<longrightarrow> d = None) \<Longrightarrow>
     last (unclaimed (reg t) @ puts t (c # cs)) = last (unclaimed (reg' t) @ puts t cs)"
  by (cases c) (auto simp: IVars_get_def IVars_put_def split: option.splits slot.splits if_splits)

lemma IVars_run_consumed:
  "IVars_run cs reg = Inr (ds, reg') \<Longrightarrow> reg t = Some Consumed \<Longrightarrow> reg' t = Some Consumed"
proof -
  assume run: "IVars_run cs reg = Inr (ds, reg')" and c: "reg t = Some Consumed"
  from IVars_run_budget [OF run, of t] c have "deliveries_left (reg' t) = 0" by simp
  then show ?thesis by (cases "reg' t" rule: deliveries_left.cases) auto
qed

lemma IVars_run_unclaimed:
  "IVars_run cs reg = Inr (ds, reg') \<Longrightarrow> unclaimed (reg' t) \<noteq> [] \<Longrightarrow>
     delivered t ds = [] \<and> unclaimed (reg' t) = [last (unclaimed (reg t) @ puts t cs)]"
proof (induction cs arbitrary: reg ds)
  case Nil
  then show ?case
    by (cases "reg t" rule: unclaimed.cases) (auto simp: delivered_def)
next
  case (Cons c cs)
  from Cons.prems(1) obtain d reg1 ds1 where
    step: "IVars_step c reg = Inr (d, reg1)" and run: "IVars_run cs reg1 = Inr (ds1, reg')"
    and ds: "ds = (case d of None \<Rightarrow> [] | Some v \<Rightarrow> [(op_token c, v)]) @ ds1"
    by (auto split: sum.splits prod.splits)
  have quiet: "op_token c = t \<longrightarrow> d = None"
  proof (intro impI, rule ccontr)
    assume t: "op_token c = t" and "d \<noteq> None"
    then obtain v where "d = Some v" by auto
    with step t have "reg1 t = Some Consumed" by (auto dest: IVars_step_delivers)
    from IVars_run_consumed [OF run this] Cons.prems(2) show False by simp
  qed
  from Cons.IH [OF run Cons.prems(2)]
  have ih: "delivered t ds1 = []" "unclaimed (reg' t) = [last (unclaimed (reg1 t) @ puts t cs)]"
    by simp_all
  from quiet ds ih(1) have "delivered t ds = []"
    by (auto simp: delivered_def split: option.splits)
  moreover from IVars_step_last [OF step quiet] ih(2)
  have "unclaimed (reg' t) = [last (unclaimed (reg t) @ puts t (c # cs))]" by simp
  ultimately show ?case by simp
qed

lemma single_use_defined:
  "(if reg (op_token c) = None \<or> reg (op_token c) = Some AwaitingValue
    then length (puts (op_token c) (c # cs)) \<le> 1 else puts (op_token c) (c # cs) = []) \<Longrightarrow>
     \<exists>d reg1. IVars_step c reg = Inr (d, reg1)"
  by (cases c) (auto simp: IVars_get_def IVars_put_def split: option.splits slot.splits if_splits)

lemma single_use_kept:
  "IVars_step c reg = Inr (d, reg1) \<Longrightarrow>
   (if reg t = None \<or> reg t = Some AwaitingValue
    then length (puts t (c # cs)) \<le> 1 else puts t (c # cs) = []) \<Longrightarrow>
   (if reg1 t = None \<or> reg1 t = Some AwaitingValue
    then length (puts t cs) \<le> 1 else puts t cs = [])"
proof (cases c)
  case (Get u)
  assume "IVars_step c reg = Inr (d, reg1)"
    and "if reg t = None \<or> reg t = Some AwaitingValue
      then length (puts t (c # cs)) \<le> 1 else puts t (c # cs) = []"
  with Get show ?thesis
    by (cases "u = t")
       (auto simp: IVars_get_def split: option.splits slot.splits if_splits)
next
  case (Put u v)
  assume "IVars_step c reg = Inr (d, reg1)"
    and "if reg t = None \<or> reg t = Some AwaitingValue
      then length (puts t (c # cs)) \<le> 1 else puts t (c # cs) = []"
  with Put show ?thesis
    by (cases "u = t")
       (auto simp: IVars_put_def split: option.splits slot.splits if_splits)
qed

lemma IVars_run_single_use:
  "(\<forall>t. if reg t = None \<or> reg t = Some AwaitingValue
        then length (puts t cs) \<le> 1 else puts t cs = []) \<Longrightarrow>
     \<exists>ds reg'. IVars_run cs reg = Inr (ds, reg')"
proof (induction cs arbitrary: reg)
  case Nil
  show ?case by simp
next
  case (Cons c cs)
  from Cons.prems have "if reg (op_token c) = None \<or> reg (op_token c) = Some AwaitingValue
    then length (puts (op_token c) (c # cs)) \<le> 1 else puts (op_token c) (c # cs) = []"
    by (rule spec)
  with single_use_defined [where reg = reg and c = c and cs = cs]
  obtain d reg1 where step: "IVars_step c reg = Inr (d, reg1)"
    by blast
  have "\<forall>t. if reg1 t = None \<or> reg1 t = Some AwaitingValue
        then length (puts t cs) \<le> 1 else puts t cs = []"
  proof
    fix t
    from Cons.prems have "if reg t = None \<or> reg t = Some AwaitingValue
      then length (puts t (c # cs)) \<le> 1 else puts t (c # cs) = []"
      by (rule spec)
    with single_use_kept [where c = c and reg = reg and d = d and ?reg1.0 = reg1 and t = t and cs = cs] step
    show "if reg1 t = None \<or> reg1 t = Some AwaitingValue
        then length (puts t cs) \<le> 1 else puts t cs = []"
      by blast
  qed
  from Cons.IH [OF this] obtain ds reg' where "IVars_run cs reg1 = Inr (ds, reg')" by blast
  with step show ?case by simp
qed

text \<open>
  Claim C2. Take any sequence of \<open>get\<close> and \<open>put\<close> calls that stays inside the
  contract, from any registry, and stop it at any point (after the calls \<open>cs\<close>). Up to
  that point a token \<open>t\<close> has delivered at most one value, however many \<open>get\<close> calls
  were made on it, so no two of them receive different values; the value delivered is one
  that was put on \<open>t\<close> (or that the slot held at the start); after a delivery the slot
  is consumed; and when the slot holds an unclaimed value, nothing was delivered and the
  slot holds exactly one value, the one of the latest \<open>put\<close>. The only calls outside
  the contract are \<open>put\<close> calls after consumption: from the empty registry, every
  sequence with at most one \<open>put\<close> per token stays inside it, with any number of
  \<open>get\<close> calls.
\<close>

theorem IVars_single_assignment:
  "(IVars_run (cs @ cs') reg = Inr (ds', reg'') \<longrightarrow>
     (\<exists>ds reg'. IVars_run cs reg = Inr (ds, reg')
       \<and> length (delivered t ds) \<le> 1
       \<and> (\<forall>v w. v \<in> set (delivered t ds) \<and> w \<in> set (delivered t ds) \<longrightarrow> v = w)
       \<and> set (delivered t ds) \<subseteq> set (puts t cs) \<union> set (unclaimed (reg t))
       \<and> (delivered t ds \<noteq> [] \<longrightarrow> reg' t = Some Consumed)
       \<and> (unclaimed (reg' t) \<noteq> [] \<longrightarrow>
            delivered t ds = []
          \<and> unclaimed (reg' t) = [last (unclaimed (reg t) @ puts t cs)])))
   \<and> ((\<forall>u. length (puts u cs) \<le> 1) \<longrightarrow>
        (\<exists>ds reg'. IVars_run cs (Map.empty :: 'a IVars) = Inr (ds, reg')))"
proof (intro conjI impI)
  assume "IVars_run (cs @ cs') reg = Inr (ds', reg'')"
  from IVars_run_append [OF this] obtain ds reg' where run: "IVars_run cs reg = Inr (ds, reg')"
    by blast
  from IVars_run_budget [OF run, of t]
  have b: "length (delivered t ds) + deliveries_left (reg' t) \<le> deliveries_left (reg t)" .
  have dl: "deliveries_left (reg t) \<le> 1" by (cases "reg t" rule: deliveries_left.cases) auto
  from b dl have len: "length (delivered t ds) \<le> 1" by simp
  have eq: "v = w" if "v \<in> set (delivered t ds)" "w \<in> set (delivered t ds)" for v w
  proof (cases "delivered t ds")
    case Nil
    with that show ?thesis by simp
  next
    case (Cons x xs)
    with len have "xs = []" by simp
    with Cons that show ?thesis by simp
  qed
  have cons: "reg' t = Some Consumed" if "delivered t ds \<noteq> []"
  proof -
    from that have "1 \<le> length (delivered t ds)" by (cases "delivered t ds") auto
    with b dl have "deliveries_left (reg' t) = 0" by simp
    then show ?thesis by (cases "reg' t" rule: deliveries_left.cases) auto
  qed
  have un: "delivered t ds = [] \<and> unclaimed (reg' t) = [last (unclaimed (reg t) @ puts t cs)]"
    if "unclaimed (reg' t) \<noteq> []"
    using IVars_run_unclaimed [OF run that] .
  from run len eq IVars_run_values [OF run, of t] cons un
  show "\<exists>ds reg'. IVars_run cs reg = Inr (ds, reg')
       \<and> length (delivered t ds) \<le> 1
       \<and> (\<forall>v w. v \<in> set (delivered t ds) \<and> w \<in> set (delivered t ds) \<longrightarrow> v = w)
       \<and> set (delivered t ds) \<subseteq> set (puts t cs) \<union> set (unclaimed (reg t))
       \<and> (delivered t ds \<noteq> [] \<longrightarrow> reg' t = Some Consumed)
       \<and> (unclaimed (reg' t) \<noteq> [] \<longrightarrow>
            delivered t ds = []
          \<and> unclaimed (reg' t) = [last (unclaimed (reg t) @ puts t cs)])"
    by blast
next
  assume "\<forall>u. length (puts u cs) \<le> 1"
  then show "\<exists>ds reg'. IVars_run cs (Map.empty :: 'a IVars) = Inr (ds, reg')"
    by (intro IVars_run_single_use) simp
qed

lemma example_calls_run:
  "IVars_run (example_calls @ []) Map.empty
     = Inr ([(''t'', 7), (''a'', 5)], [''a'' \<mapsto> Consumed, ''t'' \<mapsto> Consumed])"
  by (auto simp: example_calls_def IVars_get_def IVars_put_def)

lemma example_calls_prefix:
  "IVars_run (take 2 example_calls @ drop 2 example_calls) Map.empty
     = Inr ([(''t'', 7), (''a'', 5)], [''a'' \<mapsto> Consumed, ''t'' \<mapsto> Consumed])"
  using example_calls_run by simp

lemma example_calls_puts: "\<forall>u. length (puts u example_calls) \<le> 1"
  by (simp add: example_calls_def)

text \<open>
  The theorem of C2 on a run that interleaves two tokens and makes three \<open>get\<close> calls
  on one of them: the whole run, which delivers one value for each token, and its first
  two calls, after which one slot holds the unclaimed value that was put.
\<close>

theorem IVars_single_assignment_witness:
  "IVars_run (example_calls @ []) Map.empty
     = Inr ([(''t'', 7), (''a'', 5)], [''a'' \<mapsto> Consumed, ''t'' \<mapsto> Consumed])
   \<and> length (filter (\<lambda>c. c = Get ''t'') example_calls) = 3
   \<and> delivered ''t'' [(''t'', 7), (''a'', 5::nat)] = [7]
   \<and> puts ''t'' example_calls = [7]
   \<and> length (delivered ''t'' [(''t'', 7), (''a'', 5::nat)]) \<le> 1
   \<and> IVars_run (take 2 example_calls) Map.empty
       = Inr ([], [''a'' \<mapsto> HasValue 5, ''t'' \<mapsto> AwaitingValue])
   \<and> unclaimed ([''a'' \<mapsto> HasValue (5::nat), ''t'' \<mapsto> AwaitingValue] ''a'')
       = [last (unclaimed ((Map.empty :: nat IVars) ''a'') @ puts ''a'' (take 2 example_calls))]
   \<and> (\<forall>u. length (puts u example_calls) \<le> 1)"
proof -
  have r2: "IVars_run (take 2 example_calls) Map.empty
       = Inr ([], [''a'' \<mapsto> HasValue 5, ''t'' \<mapsto> AwaitingValue])"
    by (auto simp: example_calls_def IVars_get_def IVars_put_def)
  from IVars_single_assignment [of example_calls "[]" Map.empty _ _ "''t''"] example_calls_run
  obtain ds reg' where "IVars_run example_calls Map.empty = Inr (ds, reg')"
    and len: "length (delivered ''t'' ds) \<le> 1"
    by blast
  with example_calls_run have ds: "ds = [(''t'', 7), (''a'', 5)]" by simp
  from IVars_single_assignment [of "take 2 example_calls" "drop 2 example_calls" Map.empty _ _ "''a''"]
    example_calls_prefix
  obtain ds2 reg2 where run2: "IVars_run (take 2 example_calls) Map.empty = Inr (ds2, reg2)"
    and un2: "unclaimed (reg2 ''a'') \<noteq> [] \<longrightarrow>
            delivered ''a'' ds2 = []
          \<and> unclaimed (reg2 ''a'') = [last (unclaimed ((Map.empty :: nat IVars) ''a'')
               @ puts ''a'' (take 2 example_calls))]"
    by blast
  from run2 r2 have "reg2 = [''a'' \<mapsto> HasValue 5, ''t'' \<mapsto> AwaitingValue]" by simp
  with un2 have u: "unclaimed ([''a'' \<mapsto> HasValue (5::nat), ''t'' \<mapsto> AwaitingValue] ''a'')
       = [last (unclaimed ((Map.empty :: nat IVars) ''a'') @ puts ''a'' (take 2 example_calls))]"
    by simp
  from IVars_single_assignment [of example_calls "[]" "Map.empty :: nat IVars"] example_calls_puts
  have "\<exists>ds reg'. IVars_run example_calls Map.empty = Inr (ds, reg')" by blast
  have g: "length (filter (\<lambda>c. c = Get ''t'') example_calls) = 3"
    by (simp add: example_calls_def)
  from len ds example_calls_run r2 u g example_calls_puts show ?thesis
    by (simp add: delivered_def example_calls_def)
qed

section \<open>Properties of the spool\<close>

text \<open>
  Claim C3. If a waiter for \<open>k\<close> is suspended, \<open>dispatch(k, v)\<close> is handled, the
  waiter resumes with exactly \<open>v\<close> and is no longer registered. If no waiter for \<open>k\<close>
  is suspended, \<open>dispatch(k, v)\<close> is not handled, nobody resumes and the spool is
  unchanged: no waiter state is created and \<open>v\<close> is not kept, so a \<open>wait(k)\<close> that
  comes afterwards is suspended and resumes with the value \<open>w\<close> of the next dispatch,
  as a \<open>wait(k)\<close> on the original spool does.
\<close>

theorem Spool_dispatch_contract:
  "(k \<in> sp \<longrightarrow> Spool_dispatch k v sp = (True, Some v, sp - {k}))
   \<and> (k \<notin> sp \<longrightarrow>
        Spool_dispatch k v sp = (False, None, sp)
      \<and> Spool_wait k sp = Inr (insert k sp)
      \<and> Spool_dispatch k v (insert k sp) = (True, Some v, sp)
      \<and> Spool_dispatch k w (insert k (snd (snd (Spool_dispatch k v sp)))) = (True, Some w, sp))"
  by (simp add: Spool_dispatch_def Spool_wait_def)

text \<open>The theorem of C3 on a spool with waiters for two users.\<close>

theorem Spool_dispatch_contract_witness:
  "''u1'' \<in> {''u1'', ''u3''}
   \<and> Spool_dispatch ''u1'' ''hello'' {''u1'', ''u3''} = (True, Some ''hello'', {''u3''})
   \<and> ''u2'' \<notin> {''u1'', ''u3''}
   \<and> Spool_dispatch ''u2'' ''hello'' {''u1'', ''u3''} = (False, None, {''u1'', ''u3''})
   \<and> Spool_wait ''u2'' {''u1'', ''u3''} = Inr {''u2'', ''u1'', ''u3''}
   \<and> Spool_dispatch ''u2'' ''next'' {''u2'', ''u1'', ''u3''} = (True, Some ''next'', {''u1'', ''u3''})"
proof -
  have a: "''u1'' \<in> {''u1'', ''u3''}" and b: "''u2'' \<notin> {''u1'', ''u3''}" by simp_all
  have c: "{''u1'', ''u3''} - {''u1''} = {''u3''}" by auto
  from Spool_dispatch_contract [of "''u1''" "{''u1'', ''u3''}" "''hello''" "''next''"] a c
  have 1: "Spool_dispatch ''u1'' ''hello'' {''u1'', ''u3''} = (True, Some ''hello'', {''u3''})"
    by simp
  from Spool_dispatch_contract [of "''u2''" "{''u1'', ''u3''}" "''hello''" "''next''"] b
  have 2: "Spool_dispatch ''u2'' ''hello'' {''u1'', ''u3''} = (False, None, {''u1'', ''u3''})"
    "Spool_wait ''u2'' {''u1'', ''u3''} = Inr {''u2'', ''u1'', ''u3''}"
    by simp_all
  from Spool_dispatch_contract [of "''u2''" "{''u1'', ''u3''}" "''next''" "''next''"] b
  have 3: "Spool_dispatch ''u2'' ''next'' {''u2'', ''u1'', ''u3''} = (True, Some ''next'', {''u1'', ''u3''})"
    by simp
  from a b 1 2 3 show ?thesis by simp
qed

section \<open>Properties of the conversation orchestrator\<close>

subsection \<open>The settings route\<close>

text \<open>
  Claim C7. When the token of the request is not registered (or the request has no token
  parameter), the handler of the settings route, for every method and every form data,
  sets the status 404, ends the response with the body \<open>invalid token\<close> and leaves the
  state of the bot as it is: it makes no call of \<open>get\<close> or \<open>put\<close> on the registry,
  registers no callback and renders nothing. The handler returns a response and has no
  failing branch.
\<close>

theorem settings_unknown_token:
  "(case params ''token'' of None \<Rightarrow> True | Some t \<Rightarrow> \<not> IVars_has t (webSessions self)) \<Longrightarrow>
     settingsRoute_handler render formdata req res params self
       = (res\<lparr>statusCode := 404, body := body res @ ''invalid token'', finished := True\<rparr>, self)
     \<and> calls (snd (settingsRoute_handler render formdata req res params self)) = calls self
     \<and> officeCallbacks (snd (settingsRoute_handler render formdata req res params self))
         = officeCallbacks self
     \<and> webSessions (snd (settingsRoute_handler render formdata req res params self))
         = webSessions self"
  by (auto simp: settingsRoute_handler_def res_end_def split: option.splits)

text \<open>The theorem of C7 for a form submission with a token that was never issued.\<close>

theorem settings_unknown_token_witness:
  "\<not> IVars_has ''nope'' (webSessions example_bot)
   \<and> settingsRoute_handler example_render example_formdata
        \<lparr>req_method = Some ''POST'', req_url = Some ''/settings/nope'',
         req_body = ''service=caldav&url=u&username=n&password=p''\<rparr>
        fresh_response [''token'' \<mapsto> ''nope''] example_bot
      = (\<lparr>statusCode = 404, body = ''invalid token'', finished = True\<rparr>, example_bot)"
proof -
  have h: "\<not> IVars_has ''nope'' (webSessions example_bot)"
    by (simp add: IVars_has_def example_bot_def)
  then have c: "case [''token'' \<mapsto> ''nope''] ''token'' of None \<Rightarrow> True
     | Some t \<Rightarrow> \<not> IVars_has t (webSessions example_bot)"
    by simp
  from settings_unknown_token [where params = "[''token'' \<mapsto> ''nope'']" and self = example_bot
      and render = example_render and formdata = example_formdata and res = fresh_response, OF c] h
  show ?thesis
    by (simp add: fresh_response_def)
qed

text \<open>
  Claim C10. For a POST with a registered token: when the field \<open>service\<close> of the form
  is not \<open>caldav\<close> (or is missing), the handler ends the response with
  the body \<open>sorry; I did not understand the form\<close> and leaves the state as it is; it makes no
  call on the registry, so the registry is unchanged and nothing is delivered. When the
  field is \<open>caldav\<close>, the handler ends the response with \<open>got it; thanks!\<close> and
  makes exactly one call, \<open>put(token, settings)\<close> with the CalDAV settings of the
  form; on a token whose consumer is suspended that call delivers the settings and
  consumes the slot.
\<close>

theorem settings_post_only_caldav:
  "params ''token'' = Some t \<and> IVars_has t (webSessions self) \<and> req_method req = Some ''POST'' \<Longrightarrow>
     (formdata req ''service'' \<noteq> Some ''caldav'' \<longrightarrow>
        settingsRoute_handler render formdata req res params self
          = (res\<lparr>body := body res @ ''sorry; I did not understand the form'', finished := True\<rparr>, self)
        \<and> new_calls self (snd (settingsRoute_handler render formdata req res params self)) = []
        \<and> IVars_run (new_calls self (snd (settingsRoute_handler render formdata req res params self)))
             (webSessions self) = Inr ([], webSessions self))
   \<and> (formdata req ''service'' = Some ''caldav'' \<longrightarrow>
        settingsRoute_handler render formdata req res params self
          = (res\<lparr>body := body res @ ''got it; thanks!'', finished := True\<rparr>,
             self\<lparr>calls := calls self @
               [Put t \<lparr>service = Some Caldav,
                       caldav = Some \<lparr>url = formdata req ''url'',
                                      username = formdata req ''username'',
                                      password = formdata req ''password''\<rparr>,
                       officeToken = None\<rparr>]\<rparr>)
        \<and> (webSessions self t = Some AwaitingValue \<longrightarrow>
             IVars_run (new_calls self (snd (settingsRoute_handler render formdata req res params self)))
               (webSessions self)
             = Inr ([(t, \<lparr>service = Some Caldav,
                          caldav = Some \<lparr>url = formdata req ''url'',
                                         username = formdata req ''username'',
                                         password = formdata req ''password''\<rparr>,
                          officeToken = None\<rparr>)],
                    (webSessions self)(t \<mapsto> Consumed))))"
  by (auto simp: settingsRoute_handler_def res_end_def new_calls_def Let_def IVars_put_def)

text \<open>
  The theorem of C10 for the pending token of the example bot, with a form for the
  Office service and with a CalDAV form.
\<close>

theorem settings_post_only_caldav_witness:
  "[''token'' \<mapsto> ''tok1''] ''token'' = Some ''tok1'' \<and> IVars_has ''tok1'' (webSessions example_bot)
   \<and> example_formdata \<lparr>req_method = Some ''POST'', req_url = Some ''/settings/tok1'',
         req_body = ''service=office''\<rparr> ''service'' \<noteq> Some ''caldav''
   \<and> settingsRoute_handler example_render example_formdata
        \<lparr>req_method = Some ''POST'', req_url = Some ''/settings/tok1'', req_body = ''service=office''\<rparr>
        fresh_response [''token'' \<mapsto> ''tok1''] example_bot
      = (\<lparr>statusCode = 200, body = ''sorry; I did not understand the form'', finished = True\<rparr>,
         example_bot)
   \<and> example_formdata \<lparr>req_method = Some ''POST'', req_url = Some ''/settings/tok1'',
         req_body = ''service=caldav&url=u&username=n&password=p''\<rparr> ''service'' = Some ''caldav''
   \<and> webSessions example_bot ''tok1'' = Some AwaitingValue
   \<and> IVars_run (new_calls example_bot (snd (settingsRoute_handler example_render example_formdata
        \<lparr>req_method = Some ''POST'', req_url = Some ''/settings/tok1'',
         req_body = ''service=caldav&url=u&username=n&password=p''\<rparr>
        fresh_response [''token'' \<mapsto> ''tok1''] example_bot))) (webSessions example_bot)
      = Inr ([(''tok1'', \<lparr>service = Some Caldav,
                 caldav = Some \<lparr>url = Some ''u'', username = Some ''n'', password = Some ''p''\<rparr>,
                 officeToken = None\<rparr>)],
             [''tok1'' \<mapsto> Consumed])"
proof -
  let ?ps = "[''token'' \<mapsto> ''tok1'']"
  let ?bad = "\<lparr>req_method = Some ''POST'', req_url = Some ''/settings/tok1'', req_body = ''service=office''\<rparr>"
  let ?good = "\<lparr>req_method = Some ''POST'', req_url = Some ''/settings/tok1'',
         req_body = ''service=caldav&url=u&username=n&password=p''\<rparr>"
  have has: "IVars_has ''tok1'' (webSessions example_bot)"
    and aw: "webSessions example_bot ''tok1'' = Some AwaitingValue"
    and ws: "webSessions example_bot = [''tok1'' \<mapsto> AwaitingValue]"
    by (simp_all add: IVars_has_def example_bot_def)
  have nb: "example_formdata ?bad ''service'' \<noteq> Some ''caldav''"
    and ng: "example_formdata ?good ''service'' = Some ''caldav''"
    and fg: "example_formdata ?good ''url'' = Some ''u''" "example_formdata ?good ''username'' = Some ''n''"
      "example_formdata ?good ''password'' = Some ''p''"
    by (simp_all add: example_formdata_def)
  have pb: "?ps ''token'' = Some ''tok1'' \<and> IVars_has ''tok1'' (webSessions example_bot)
      \<and> req_method ?bad = Some ''POST''"
    and pg: "?ps ''token'' = Some ''tok1'' \<and> IVars_has ''tok1'' (webSessions example_bot)
      \<and> req_method ?good = Some ''POST''"
    using has by simp_all
  from settings_post_only_caldav [where params = ?ps and self = example_bot and req = ?bad
      and formdata = example_formdata and render = example_render and res = fresh_response, OF pb] nb
  have 1: "settingsRoute_handler example_render example_formdata ?bad fresh_response ?ps example_bot
      = (\<lparr>statusCode = 200, body = ''sorry; I did not understand the form'', finished = True\<rparr>,
         example_bot)"
    by (simp add: fresh_response_def)
  from settings_post_only_caldav [where params = ?ps and self = example_bot and req = ?good
      and formdata = example_formdata and render = example_render and res = fresh_response, OF pg] ng aw
  have 2: "IVars_run (new_calls example_bot (snd (settingsRoute_handler example_render example_formdata
        ?good fresh_response ?ps example_bot))) (webSessions example_bot)
      = Inr ([(''tok1'', \<lparr>service = Some Caldav,
                 caldav = Some \<lparr>url = example_formdata ?good ''url'',
                    username = example_formdata ?good ''username'',
                    password = example_formdata ?good ''password''\<rparr>,
                 officeToken = None\<rparr>)],
             (webSessions example_bot)(''tok1'' \<mapsto> Consumed))"
    by blast
  have 3: "(webSessions example_bot)(''tok1'' \<mapsto> Consumed) = [''tok1'' \<mapsto> Consumed]"
    by (simp add: ws)
  from has nb ng aw 1 2 [unfolded fg 3] show ?thesis by simp
qed

subsection \<open>Intent dispatch\<close>

text \<open>
  Claim C8. \<open>interact\<close> runs the greeting handler when the result of the language
  service has the greeting entity; otherwise the bye handler when it has the bye entity;
  otherwise the thanks handler when it has the thanks entity. With none of the three, it
  runs the handler named by the intent (\<open>show_calendar\<close>, \<open>schedule_meeting\<close>,
  \<open>setup_calendar\<close>, \<open>help\<close>), and for an absent or any other intent the default
  handler, which sends its fixed message and returns normally.
\<close>

theorem interact_precedence:
  "(getEntity res ''greetings'' \<longrightarrow>
      interact getEntity entityValue getEvents token res conv st = handle_greeting conv st)
   \<and> (\<not> getEntity res ''greetings'' \<and> getEntity res ''bye'' \<longrightarrow>
      interact getEntity entityValue getEvents token res conv st = handle_bye conv st)
   \<and> (\<not> getEntity res ''greetings'' \<and> \<not> getEntity res ''bye'' \<and> getEntity res ''thanks'' \<longrightarrow>
      interact getEntity entityValue getEvents token res conv st = handle_thanks conv st)
   \<and> (\<not> getEntity res ''greetings'' \<and> \<not> getEntity res ''bye'' \<and> \<not> getEntity res ''thanks'' \<longrightarrow>
        (entityValue res ''intent'' = Some ''show_calendar'' \<longrightarrow>
           interact getEntity entityValue getEvents token res conv st
             = handle_show_calendar getEvents token conv st)
      \<and> (entityValue res ''intent'' = Some ''schedule_meeting'' \<longrightarrow>
           interact getEntity entityValue getEvents token res conv st
             = handle_schedule_meeting conv st)
      \<and> (entityValue res ''intent'' = Some ''setup_calendar'' \<longrightarrow>
           interact getEntity entityValue getEvents token res conv st
             = handle_setup_calendar token conv st)
      \<and> (entityValue res ''intent'' = Some ''help'' \<longrightarrow>
           interact getEntity entityValue getEvents token res conv st = handle_help conv st)
      \<and> (entityValue res ''intent'' \<notin> {Some ''show_calendar'', Some ''schedule_meeting'',
                                        Some ''setup_calendar'', Some ''help''} \<longrightarrow>
           interact getEntity entityValue getEvents token res conv st = handle_default conv st
         \<and> handle_default conv st
             = (st\<lparr>sent := sent st @ [(user conv, '':confused: :grey_question:'')]\<rparr>, Done (Inr ()))))"
  by (simp add: interact_def Let_def handle_default_def send_def)

text \<open>
  The theorem of C8 on results that carry several entities, each intent, an unknown intent
  and no intent.
\<close>

theorem interact_precedence_witness:
  "example_getEntity [(''greetings'', ''true''), (''bye'', ''true'')] ''greetings''
   \<and> sent (fst (interact example_getEntity example_entityValue example_getEvents ''r4nd0m''
        [(''greetings'', ''true''), (''bye'', ''true'')] example_conv example_bot))
      = [(''U1'', ''hi!'')]
   \<and> example_getEntity [(''bye'', ''true''), (''intent'', ''help'')] ''bye''
   \<and> sent (fst (interact example_getEntity example_entityValue example_getEvents ''r4nd0m''
        [(''bye'', ''true''), (''intent'', ''help'')] example_conv example_bot))
      = [(''U1'', '':wave: I'll be right here'')]
   \<and> example_getEntity [(''thanks'', ''true''), (''intent'', ''help'')] ''thanks''
   \<and> sent (fst (interact example_getEntity example_entityValue example_getEvents ''r4nd0m''
        [(''thanks'', ''true''), (''intent'', ''help'')] example_conv example_bot))
      = [(''U1'', ''nbd yo'')]
   \<and> example_entityValue [(''intent'', ''show_calendar'')] ''intent'' = Some ''show_calendar''
   \<and> interact example_getEntity example_entityValue example_getEvents ''r4nd0m''
        [(''intent'', ''show_calendar'')] example_conv example_bot
      = handle_show_calendar example_getEvents ''r4nd0m'' example_conv example_bot
   \<and> example_entityValue [(''intent'', ''schedule_meeting'')] ''intent'' = Some ''schedule_meeting''
   \<and> interact example_getEntity example_entityValue example_getEvents ''r4nd0m''
        [(''intent'', ''schedule_meeting'')] example_conv example_bot
      = handle_schedule_meeting example_conv example_bot
   \<and> example_entityValue [(''intent'', ''setup_calendar'')] ''intent'' = Some ''setup_calendar''
   \<and> interact example_getEntity example_entityValue example_getEvents ''r4nd0m''
        [(''intent'', ''setup_calendar'')] example_conv example_bot
      = handle_setup_calendar ''r4nd0m'' example_conv example_bot
   \<and> example_entityValue [(''intent'', ''help'')] ''intent'' = Some ''help''
   \<and> sent (fst (interact example_getEntity example_entityValue example_getEvents ''r4nd0m''
        [(''intent'', ''help'')] example_conv example_bot))
      = [(''U1'', ''I can schedule a meeting or show your calendar'')]
   \<and> example_entityValue [(''intent'', ''weather'')] ''intent'' = Some ''weather''
   \<and> interact example_getEntity example_entityValue example_getEvents ''r4nd0m''
        [(''intent'', ''weather'')] example_conv example_bot
      = (example_bot\<lparr>sent := [(''U1'', '':confused: :grey_question:'')]\<rparr>, Done (Inr ()))
   \<and> example_entityValue [] ''intent'' = None
   \<and> interact example_getEntity example_entityValue example_getEvents ''r4nd0m''
        [] example_conv example_bot
      = (example_bot\<lparr>sent := [(''U1'', '':confused: :grey_question:'')]\<rparr>, Done (Inr ()))"
proof -
  note p = interact_precedence [where getEntity = example_getEntity
      and entityValue = example_entityValue and getEvents = example_getEvents
      and token = "''r4nd0m''" and conv = example_conv and st = example_bot]
  have s0: "sent example_bot = []" "user example_conv = ''U1''"
    by (simp_all add: example_bot_def example_conv_def)
  have 1: "example_getEntity [(''greetings'', ''true''), (''bye'', ''true'')] ''greetings''"
    by (simp add: example_getEntity_def)
  from p [of "[(''greetings'', ''true''), (''bye'', ''true'')]"] 1
  have r1: "sent (fst (interact example_getEntity example_entityValue example_getEvents ''r4nd0m''
        [(''greetings'', ''true''), (''bye'', ''true'')] example_conv example_bot))
      = [(''U1'', ''hi!'')]"
    by (simp add: handle_greeting_def send_def s0)
  have 2: "\<not> example_getEntity [(''bye'', ''true''), (''intent'', ''help'')] ''greetings''"
    "example_getEntity [(''bye'', ''true''), (''intent'', ''help'')] ''bye''"
    by (simp_all add: example_getEntity_def)
  from p [of "[(''bye'', ''true''), (''intent'', ''help'')]"] 2
  have r2: "sent (fst (interact example_getEntity example_entityValue example_getEvents ''r4nd0m''
        [(''bye'', ''true''), (''intent'', ''help'')] example_conv example_bot))
      = [(''U1'', '':wave: I'll be right here'')]"
    by (simp add: handle_bye_def send_def s0)
  have 3: "\<not> example_getEntity [(''thanks'', ''true''), (''intent'', ''help'')] ''greetings''"
    "\<not> example_getEntity [(''thanks'', ''true''), (''intent'', ''help'')] ''bye''"
    "example_getEntity [(''thanks'', ''true''), (''intent'', ''help'')] ''thanks''"
    by (simp_all add: example_getEntity_def)
  from p [of "[(''thanks'', ''true''), (''intent'', ''help'')]"] 3
  have r3: "sent (fst (interact example_getEntity example_entityValue example_getEvents ''r4nd0m''
        [(''thanks'', ''true''), (''intent'', ''help'')] example_conv example_bot))
      = [(''U1'', ''nbd yo'')]"
    by (simp add: handle_thanks_def send_def s0)
  have n: "\<not> example_getEntity [(''intent'', v)] ''greetings''"
    "\<not> example_getEntity [(''intent'', v)] ''bye''"
    "\<not> example_getEntity [(''intent'', v)] ''thanks''"
    "example_entityValue [(''intent'', v)] ''intent'' = Some v" for v
    by (simp_all add: example_getEntity_def example_entityValue_def)
  from p [of "[(''intent'', ''show_calendar'')]"] n [of "''show_calendar''"]
  have 4: "interact example_getEntity example_entityValue example_getEvents ''r4nd0m''
        [(''intent'', ''show_calendar'')] example_conv example_bot
      = handle_show_calendar example_getEvents ''r4nd0m'' example_conv example_bot"
    by simp
  from p [of "[(''intent'', ''schedule_meeting'')]"] n [of "''schedule_meeting''"]
  have 5: "interact example_getEntity example_entityValue example_getEvents ''r4nd0m''
        [(''intent'', ''schedule_meeting'')] example_conv example_bot
      = handle_schedule_meeting example_conv example_bot"
    by simp
  from p [of "[(''intent'', ''setup_calendar'')]"] n [of "''setup_calendar''"]
  have 6: "interact example_getEntity example_entityValue example_getEvents ''r4nd0m''
        [(''intent'', ''setup_calendar'')] example_conv example_bot
      = handle_setup_calendar ''r4nd0m'' example_conv example_bot"
    by simp
  from p [of "[(''intent'', ''help'')]"] n [of "''help''"]
  have 7: "sent (fst (interact example_getEntity example_entityValue example_getEvents ''r4nd0m''
        [(''intent'', ''help'')] example_conv example_bot))
      = [(''U1'', ''I can schedule a meeting or show your calendar'')]"
    by (simp add: handle_help_def send_def s0)
  from p [of "[(''intent'', ''weather'')]"] n [of "''weather''"]
  have 8: "interact example_getEntity example_entityValue example_getEvents ''r4nd0m''
        [(''intent'', ''weather'')] example_conv example_bot
      = (example_bot\<lparr>sent := [(''U1'', '':confused: :grey_question:'')]\<rparr>, Done (Inr ()))"
    by (simp add: s0)
  have e: "\<not> example_getEntity [] ''greetings''" "\<not> example_getEntity [] ''bye''"
    "\<not> example_getEntity [] ''thanks''" "example_entityValue [] ''intent'' = None"
    by (simp_all add: example_getEntity_def example_entityValue_def)
  from p [of "[]"] e
  have 9: "interact example_getEntity example_entityValue example_getEvents ''r4nd0m''
        [] example_conv example_bot
      = (example_bot\<lparr>sent := [(''U1'', '':confused: :grey_question:'')]\<rparr>, Done (Inr ()))"
    by (simp add: s0)
  from 1 r1 2 r2 3 r3 n(4) 4 5 6 7 8 e(4) 9 show ?thesis by simp
qed

subsection \<open>Gathering settings\<close>

text \<open>
  Claim C9. When \<open>force\<close> is set or the stored record of the user has no service (or
  there is no record yet), \<open>getCalendar\<close> gathers settings: it sends the URL with the
  token, calls \<open>get(token)\<close> on the registry and is suspended on it; the record of a new
  user is created before; and when the registry delivers settings, the continuation, the
  same in every such case, stores them in the record of the user and saves the database.
  Otherwise \<open>getCalendar\<close> returns the calendar of the stored settings and leaves the
  whole state, the stored settings among it, unchanged: nothing is sent and the registry is
  not called.
\<close>

theorem getCalendar_policy:
  "((force \<or> (case users st (user conv) of None \<Rightarrow> True | Some s \<Rightarrow> service s = None)) \<longrightarrow>
      (\<exists>st1 k. getCalendar conv force token st = (st1, Await token k)
         \<and> sent st1 = sent st @
             [(user conv, ''please fill out the form at '' @ webURL st @ ''/settings/'' @ token)]
         \<and> calls st1 = calls st @ [Get token]
         \<and> users st1 = (case users st (user conv) of
                           None \<Rightarrow> (users st)(user conv \<mapsto> no_settings)
                         | Some s \<Rightarrow> users st)
         \<and> (\<forall>s st'. k s st'
               = (st'\<lparr>users := (users st')(user conv \<mapsto> s), saves := Suc (saves st')\<rparr>,
                  calendar_for s))))
   \<and> (\<not> (force \<or> (case users st (user conv) of None \<Rightarrow> True | Some s \<Rightarrow> service s = None)) \<longrightarrow>
        getCalendar conv force token st = (st, Done (calendar_for (the (users st (user conv))))))"
  by (auto simp: getCalendar_def getUser_def gatherSettings_def send_def no_settings_def Let_def
           split: option.splits)

lemma users_example_bot:
  "users example_bot ''U1'' = Some \<lparr>service = Some Office, caldav = None, officeToken = Some ''oauth''\<rparr>"
  "users example_bot ''U2'' = None"
  by (simp_all add: example_bot_def)

text \<open>
  The theorem of C9 for a user with a configured service, without and with \<open>force\<close>,
  and for a new user.
\<close>

theorem getCalendar_policy_witness:
  "getCalendar example_conv False ''r4nd0m'' example_bot
     = (example_bot, Done (Inr (Some (OfficeCalendar (Some ''oauth'')))))
   \<and> (\<exists>st1 k. getCalendar example_conv True ''r4nd0m'' example_bot = (st1, Await ''r4nd0m'' k)
         \<and> sent st1 = [(''U1'', ''please fill out the form at http://localhost:5000/settings/r4nd0m'')]
         \<and> calls st1 = [Get ''r4nd0m'']
         \<and> users st1 = users example_bot
         \<and> k no_settings st1
             = (st1\<lparr>users := (users st1)(''U1'' \<mapsto> no_settings), saves := Suc (saves st1)\<rparr>, Inr None))
   \<and> (\<exists>st1 k. getCalendar new_conv False ''r4nd0m'' example_bot = (st1, Await ''r4nd0m'' k)
         \<and> users st1 = (users example_bot)(''U2'' \<mapsto> no_settings))"
proof -
  have a: "\<not> (False \<or> (case users example_bot (user example_conv) of None \<Rightarrow> True
              | Some s \<Rightarrow> service s = None))"
    by (simp add: example_conv_def users_example_bot)
  have b: "True \<or> (case users example_bot (user example_conv) of None \<Rightarrow> True
              | Some s \<Rightarrow> service s = None)"
    by simp
  have c: "False \<or> (case users example_bot (user new_conv) of None \<Rightarrow> True
              | Some s \<Rightarrow> service s = None)"
    by (simp add: new_conv_def users_example_bot)
  from getCalendar_policy [of False example_bot example_conv "''r4nd0m''"] a
  have 1: "getCalendar example_conv False ''r4nd0m'' example_bot
     = (example_bot, Done (Inr (Some (OfficeCalendar (Some ''oauth'')))))"
    by (simp add: example_conv_def users_example_bot calendar_for_def)
  from getCalendar_policy [of True example_bot example_conv "''r4nd0m''"] b
  obtain st1 k where g: "getCalendar example_conv True ''r4nd0m'' example_bot = (st1, Await ''r4nd0m'' k)"
    "sent st1 = sent example_bot @
       [(user example_conv, ''please fill out the form at '' @ webURL example_bot @ ''/settings/'' @ ''r4nd0m'')]"
    "calls st1 = calls example_bot @ [Get ''r4nd0m'']"
    "users st1 = (case users example_bot (user example_conv) of
                           None \<Rightarrow> (users example_bot)(user example_conv \<mapsto> no_settings)
                         | Some s \<Rightarrow> users example_bot)"
    "\<forall>s st'. k s st'
               = (st'\<lparr>users := (users st')(user example_conv \<mapsto> s), saves := Suc (saves st')\<rparr>,
                  calendar_for s)"
    by blast
  have 2: "\<exists>st1 k. getCalendar example_conv True ''r4nd0m'' example_bot = (st1, Await ''r4nd0m'' k)
         \<and> sent st1 = [(''U1'', ''please fill out the form at http://localhost:5000/settings/r4nd0m'')]
         \<and> calls st1 = [Get ''r4nd0m'']
         \<and> users st1 = users example_bot
         \<and> k no_settings st1
             = (st1\<lparr>users := (users st1)(''U1'' \<mapsto> no_settings), saves := Suc (saves st1)\<rparr>, Inr None)"
  proof (intro exI conjI)
    show "getCalendar example_conv True ''r4nd0m'' example_bot = (st1, Await ''r4nd0m'' k)" by (rule g(1))
    show "sent st1 = [(''U1'', ''please fill out the form at http://localhost:5000/settings/r4nd0m'')]"
      using g(2) by (simp add: example_conv_def example_bot_def)
    show "calls st1 = [Get ''r4nd0m'']" using g(3) by (simp add: example_bot_def)
    show "users st1 = users example_bot"
      using g(4) by (simp add: example_conv_def users_example_bot)
    show "k no_settings st1
             = (st1\<lparr>users := (users st1)(''U1'' \<mapsto> no_settings), saves := Suc (saves st1)\<rparr>, Inr None)"
      using g(5) by (simp add: example_conv_def calendar_for_def no_settings_def)
  qed
  from getCalendar_policy [of False example_bot new_conv "''r4nd0m''"] c
  obtain st2 k2 where h: "getCalendar new_conv False ''r4nd0m'' example_bot = (st2, Await ''r4nd0m'' k2)"
    "users st2 = (case users example_bot (user new_conv) of
                           None \<Rightarrow> (users example_bot)(user new_conv \<mapsto> no_settings)
                         | Some s \<Rightarrow> users example_bot)"
    by blast
  from h(2) have "users st2 = (users example_bot)(''U2'' \<mapsto> no_settings)"
    by (simp add: new_conv_def users_example_bot)
  with h(1) have 3: "\<exists>st1 k. getCalendar new_conv False ''r4nd0m'' example_bot = (st1, Await ''r4nd0m'' k)
         \<and> users st1 = (users example_bot)(''U2'' \<mapsto> no_settings)"
    by blast
  from 1 2 3 show ?thesis by blast
qed

end
